theory Spec2Isabelle
  imports Complex_Main
begin

section \<open>Python values that travel through the JSON library\<close>

text \<open>
  The reliable-messaging class of \<^verbatim>\<open>tcp_comunicacion_confiable.py\<close> exchanges
  Python dictionaries that it serialises with \<^verbatim>\<open>json.dumps\<close> and reads back with
  \<^verbatim>\<open>json.loads\<close>. A value that \<^verbatim>\<open>json.loads\<close> can return is a \<open>json\<close>; a
  dictionary keeps its items in insertion order, as Python does. A byte is a \<open>char\<close>
  (eight bits), and a Python \<^verbatim>\<open>str\<close> is represented by its UTF-8 bytes, so that
  \<^verbatim>\<open>str.encode('utf-8')\<close> is the identity and \<^verbatim>\<open>bytes.decode('utf-8')\<close> is a
  validity check.
\<close>

type_synonym bytes = "char list"

datatype flotante = Finito rat | Infinito bool | NaN

datatype json =
    JNull
  | JBool bool
  | JInt int
  | JFloat flotante
  | JStr string
  | JArr "json list"
  | JObj "(string \<times> json) list"

text \<open>\<^verbatim>\<open>d.get(k)\<close>: the value stored under \<open>k\<close>, \<^verbatim>\<open>None\<close> when there is none.\<close>

definition dict_get :: "(string \<times> json) list \<Rightarrow> string \<Rightarrow> json" where
  "dict_get d k = (case map_of d k of None \<Rightarrow> JNull | Some v \<Rightarrow> v)"

text \<open>Python truthiness, as \<^verbatim>\<open>if mensaje_id:\<close> tests it.\<close>

fun verdadero :: "json \<Rightarrow> bool" where
  "verdadero JNull = False"
| "verdadero (JBool b) = b"
| "verdadero (JInt n) = (n \<noteq> 0)"
| "verdadero (JFloat (Finito r)) = (r \<noteq> 0)"
| "verdadero (JFloat (Infinito _)) = True"
| "verdadero (JFloat NaN) = True"
| "verdadero (JStr s) = (s \<noteq> [])"
| "verdadero (JArr xs) = (xs \<noteq> [])"
| "verdadero (JObj kvs) = (kvs \<noteq> [])"

text \<open>
  Keys of a \<^verbatim>\<open>dict\<close> or elements of a \<^verbatim>\<open>set\<close>: Python hashes and compares
  \<^verbatim>\<open>True\<close>, \<^verbatim>\<open>1\<close> and \<^verbatim>\<open>1.0\<close> as one key; lists and dictionaries are
  unhashable (\<^verbatim>\<open>TypeError\<close>, here \<open>None\<close>).
\<close>

datatype clave = KNone | KNum int | KFloat flotante | KStr string

definition entero_de :: "rat \<Rightarrow> int option" where
  "entero_de r = (if of_int \<lfloor>r\<rfloor> = r then Some \<lfloor>r\<rfloor> else None)"

fun clave_de :: "json \<Rightarrow> clave option" where
  "clave_de JNull = Some KNone"
| "clave_de (JBool b) = Some (KNum (if b then 1 else 0))"
| "clave_de (JInt n) = Some (KNum n)"
| "clave_de (JFloat (Finito r)) =
     (case entero_de r of Some n \<Rightarrow> Some (KNum n) | None \<Rightarrow> Some (KFloat (Finito r)))"
| "clave_de (JFloat f) = Some (KFloat f)"
| "clave_de (JStr s) = Some (KStr s)"
| "clave_de (JArr _) = None"
| "clave_de (JObj _) = None"

text \<open>
  The two library functions the class calls. \<open>json_dumps\<close> is \<^verbatim>\<open>json.dumps\<close>
  (\<open>None\<close> when it raises), \<open>json_loads\<close> is \<^verbatim>\<open>json.loads\<close> (\<open>None\<close> for
  \<^verbatim>\<open>JSONDecodeError\<close>). They are parameters of the model.
\<close>

record biblioteca =
  json_dumps :: "json \<Rightarrow> string option"
  json_loads :: "string \<Rightarrow> json option"

subsection \<open>\<^verbatim>\<open>struct.pack('!I', n)\<close> and \<^verbatim>\<open>struct.unpack('!I', b)\<close>\<close>

definition struct_pack_I :: "nat \<Rightarrow> bytes option" where
  "struct_pack_I n =
     (if n < 2 ^ 32
      then Some [char_of (n div 2 ^ 24), char_of (n div 2 ^ 16), char_of (n div 2 ^ 8), char_of n]
      else None)"

fun struct_unpack_I :: "bytes \<Rightarrow> nat option" where
  "struct_unpack_I [a, b, c, d] =
     Some (((of_char a * 256 + of_char b) * 256 + of_char c) * 256 + of_char d)"
| "struct_unpack_I _ = None"

subsection \<open>\<^verbatim>\<open>bytes.decode('utf-8')\<close>\<close>

text \<open>
  Python's strict decoder accepts exactly the well-formed UTF-8 byte sequences: no
  overlong forms, no surrogates, nothing above U+10FFFF.
\<close>

definition cont :: "nat \<Rightarrow> bool" where
  "cont b = (0x80 \<le> b \<and> b \<le> 0xBF)"

fun utf8_ok :: "nat list \<Rightarrow> bool" where
  "utf8_ok [] = True"
| "utf8_ok (a # r) =
    (if a < 0x80 then utf8_ok r
     else if 0xC2 \<le> a \<and> a \<le> 0xDF then
       (case r of b # r' \<Rightarrow> cont b \<and> utf8_ok r' | _ \<Rightarrow> False)
     else if a = 0xE0 then
       (case r of b # c # r' \<Rightarrow> 0xA0 \<le> b \<and> b \<le> 0xBF \<and> cont c \<and> utf8_ok r' | _ \<Rightarrow> False)
     else if a = 0xED then
       (case r of b # c # r' \<Rightarrow> 0x80 \<le> b \<and> b \<le> 0x9F \<and> cont c \<and> utf8_ok r' | _ \<Rightarrow> False)
     else if 0xE1 \<le> a \<and> a \<le> 0xEF then
       (case r of b # c # r' \<Rightarrow> cont b \<and> cont c \<and> utf8_ok r' | _ \<Rightarrow> False)
     else if a = 0xF0 then
       (case r of b # c # d # r' \<Rightarrow>
          0x90 \<le> b \<and> b \<le> 0xBF \<and> cont c \<and> cont d \<and> utf8_ok r' | _ \<Rightarrow> False)
     else if a = 0xF4 then
       (case r of b # c # d # r' \<Rightarrow>
          0x80 \<le> b \<and> b \<le> 0x8F \<and> cont c \<and> cont d \<and> utf8_ok r' | _ \<Rightarrow> False)
     else if 0xF1 \<le> a \<and> a \<le> 0xF3 then
       (case r of b # c # d # r' \<Rightarrow> cont b \<and> cont c \<and> cont d \<and> utf8_ok r' | _ \<Rightarrow> False)
     else False)"

definition decode_utf8 :: "bytes \<Rightarrow> string option" where
  "decode_utf8 b = (if utf8_ok (map of_char b) then Some b else None)"

section \<open>The state of a \<^verbatim>\<open>ComunicacionTCPConfiable\<close> object and of its surroundings\<close>

type_synonym socket = nat

datatype nivel = INFO | WARNING | ERROR

text \<open>
  What the object does to the outside, in the order it does it: log lines, writes
  (\<open>Envia\<close>: \<^verbatim>\<open>sendall\<close> returned; \<open>EnvioFallido\<close>: the attempt raised), connection
  attempts with their outcome, sleeps (milliseconds), calls of the delivery callback,
  prints, receive threads started, sockets closed.
\<close>

datatype evento =
    Log nivel
  | Envia socket json bytes
  | EnvioFallido "socket option" json
  | Conecta socket bool
  | Duerme nat
  | Entrega json json
  | Imprime json json
  | Hilo socket
  | Cierra socket

record estadisticas =
  mensajes_enviados :: nat
  mensajes_recibidos :: nat
  acks_enviados :: nat
  acks_recibidos_cnt :: nat
  reconexiones :: nat
  errores :: nat

text \<open>
  The attributes of the object, then the surroundings: \<open>reloj\<close> is
  \<^verbatim>\<open>time.time()\<close> in milliseconds (\<open>timeout_ack\<close> and \<open>intervalo_heartbeat\<close> are
  in milliseconds too), \<open>traza\<close> the time-stamped events so far, \<open>sig_socket\<close> the
  next fresh socket. Three oracles stand for what the code cannot decide: the outcomes
  of the coming \<^verbatim>\<open>connect\<close> calls (none left: refused), of the coming
  \<^verbatim>\<open>sendall\<close> calls (none left: success), and what the receive thread does during
  each \<^verbatim>\<open>time.sleep(0.1)\<close> of the polling loop: how much longer than 100 ms the
  sleep lasts and which ACK messages are processed meanwhile. The delivery callback
  answers \<open>False\<close> when it raises.
\<close>

record estado =
  nombre :: string
  es_servidor :: bool
  host :: string
  puerto :: nat
  socket_cliente :: "socket option"
  conexion_activa :: bool
  ejecutando :: bool
  mensajes_pendientes :: "clave \<rightharpoonup> json"
  acks_recibidos :: "clave set"
  callback_mensaje :: "(json \<Rightarrow> json \<Rightarrow> bool) option"
  timeout_ack :: nat
  max_reintentos :: nat
  intervalo_heartbeat :: nat
  mensaje_id :: nat
  stats :: estadisticas
  reloj :: nat
  traza :: "(nat \<times> evento) list"
  sig_socket :: socket
  conexiones :: "bool list"
  envios :: "bool list"
  llegadas :: "(nat \<times> json list) list"

text \<open>\<^verbatim>\<open>__init__\<close>, in surroundings given by the clock and the three oracles.\<close>

definition init :: "string \<Rightarrow> bool \<Rightarrow> string \<Rightarrow> nat \<Rightarrow>
    nat \<Rightarrow> bool list \<Rightarrow> bool list \<Rightarrow> (nat \<times> json list) list \<Rightarrow> estado" where
  "init nom srv h p t cs es ls =
     \<lparr> nombre = nom, es_servidor = srv, host = h, puerto = p,
       socket_cliente = None, conexion_activa = False, ejecutando = False,
       mensajes_pendientes = Map.empty, acks_recibidos = {},
       callback_mensaje = None,
       timeout_ack = 5000, max_reintentos = 3, intervalo_heartbeat = 10000,
       mensaje_id = 0,
       stats = \<lparr> mensajes_enviados = 0, mensajes_recibidos = 0, acks_enviados = 0,
                 acks_recibidos_cnt = 0, reconexiones = 0, errores = 0 \<rparr>,
       reloj = t, traza = [], sig_socket = 0,
       conexiones = cs, envios = es, llegadas = ls \<rparr>"

definition registrar :: "evento \<Rightarrow> estado \<Rightarrow> estado" where
  "registrar ev s = s\<lparr> traza := traza s @ [(reloj s, ev)] \<rparr>"

text \<open>\<^verbatim>\<open>time.sleep(d)\<close> outside the polling loop.\<close>

definition dormir :: "nat \<Rightarrow> estado \<Rightarrow> estado" where
  "dormir d s = (registrar (Duerme d) s)\<lparr> reloj := reloj s + d \<rparr>"

definition sumar_error :: "estado \<Rightarrow> estado" where
  "sumar_error s = s\<lparr> stats := (stats s)\<lparr> errores := errores (stats s) + 1 \<rparr> \<rparr>"

text \<open>\<^verbatim>\<open>time.time()\<close> as the float of a message's \<^verbatim>\<open>timestamp\<close> field (seconds).\<close>

definition time_time :: "estado \<Rightarrow> json" where
  "time_time s = JFloat (Finito (of_nat (reloj s) / 1000))"

section \<open>Connecting: \<^verbatim>\<open>_conectar_servidor\<close> and \<^verbatim>\<open>_manejar_error_conexion\<close>\<close>

text \<open>
  One turn of the \<^verbatim>\<open>while\<close> loop of \<^verbatim>\<open>_conectar_servidor\<close> creates a socket and
  calls \<^verbatim>\<open>connect\<close> (\<open>intentar_conexion\<close>). On success (\<open>tras_exito\<close>) the
  connection is marked active, the receive thread is started, a reconnection is counted
  when this was not the first attempt, and the function returns \<^verbatim>\<open>True\<close>. On failure
  (\<open>tras_fallo\<close>, given the incremented \<open>reintentos\<close>) the thread sleeps
  \<^verbatim>\<open>2 ** reintentos\<close> seconds when attempts remain, and counts an error otherwise.
\<close>

definition intentar_conexion :: "estado \<Rightarrow> bool \<times> estado" where
  "intentar_conexion s =
     (let k = sig_socket s;
          ok = (case conexiones s of [] \<Rightarrow> False | b # _ \<Rightarrow> b)
      in (ok, registrar (Conecta k ok)
                (s\<lparr> socket_cliente := Some k, sig_socket := Suc k,
                    conexiones := tl (conexiones s) \<rparr>)))"

definition tras_exito :: "nat \<Rightarrow> estado \<Rightarrow> estado" where
  "tras_exito reintentos s =
     (let s1 = registrar (Log INFO) (s\<lparr> conexion_activa := True \<rparr>);
          s2 = (case socket_cliente s1 of None \<Rightarrow> s1 | Some k \<Rightarrow> registrar (Hilo k) s1)
      in if reintentos > 0
         then s2\<lparr> stats := (stats s2)\<lparr> reconexiones := reconexiones (stats s2) + 1 \<rparr> \<rparr>
         else s2)"

definition tras_fallo :: "nat \<Rightarrow> estado \<Rightarrow> estado" where
  "tras_fallo reintentos s =
     (let s1 = registrar (Log WARNING) s
      in if reintentos < max_reintentos s1
         then dormir (1000 * 2 ^ reintentos) s1
         else sumar_error (registrar (Log ERROR) s1))"

lemma tras_fallo_max_reintentos [simp]:
  "max_reintentos (tras_fallo r s) = max_reintentos s"
  by (simp add: tras_fallo_def registrar_def dormir_def sumar_error_def Let_def)

lemma intentar_conexion_max_reintentos:
  "(ok, s1) = intentar_conexion s \<Longrightarrow> max_reintentos s1 = max_reintentos s"
  by (simp add: intentar_conexion_def registrar_def Let_def)

function conectar_bucle :: "nat \<Rightarrow> estado \<Rightarrow> bool \<times> estado" where
  "conectar_bucle reintentos s =
     (if ejecutando s \<and> reintentos < max_reintentos s then
        (case intentar_conexion s of
           (True, s1) \<Rightarrow> (True, tras_exito reintentos s1)
         | (False, s1) \<Rightarrow> conectar_bucle (reintentos + 1) (tras_fallo (reintentos + 1) s1))
      else (False, s))"
  by pat_completeness auto
termination
  by (relation "measure (\<lambda>(r, s). max_reintentos s - r)")
     (auto dest: intentar_conexion_max_reintentos)

declare conectar_bucle.simps [simp del]

definition conectar_servidor :: "estado \<Rightarrow> bool \<times> estado" where
  "conectar_servidor s = conectar_bucle 0 s"

definition manejar_error_conexion :: "estado \<Rightarrow> estado" where
  "manejar_error_conexion s =
     (let s1 = (registrar (Log WARNING) s)\<lparr> conexion_activa := False \<rparr>;
          s2 = (case socket_cliente s1 of
                  None \<Rightarrow> s1
                | Some k \<Rightarrow> (registrar (Cierra k) s1)\<lparr> socket_cliente := None \<rparr>)
      in if \<not> es_servidor s2 \<and> ejecutando s2
         then snd (conectar_servidor (dormir 2000 (registrar (Log INFO) s2)))
         else s2)"

section \<open>Writing one frame: \<^verbatim>\<open>_enviar_mensaje_raw\<close>\<close>

text \<open>
  The bytes of a frame: the length of the UTF-8 JSON text in four bytes, most
  significant first, then the text. \<open>None\<close> when \<^verbatim>\<open>json.dumps\<close> or
  \<^verbatim>\<open>struct.pack\<close> raises.
\<close>

definition trama :: "biblioteca \<Rightarrow> json \<Rightarrow> bytes option" where
  "trama B mensaje =
     (case json_dumps B mensaje of
        None \<Rightarrow> None
      | Some mensaje_bytes \<Rightarrow>
          (case struct_pack_I (length mensaje_bytes) of
             None \<Rightarrow> None
           | Some longitud \<Rightarrow> Some (longitud @ mensaje_bytes)))"

text \<open>
  \<^verbatim>\<open>sendall\<close> is reached when the frame could be built and the destination is a
  socket; its outcome is the next one of the oracle. Every failure takes the
  \<^verbatim>\<open>except\<close> branch: log, \<^verbatim>\<open>_manejar_error_conexion\<close>, error counter, \<^verbatim>\<open>False\<close>.
\<close>

definition fallo_envio :: "json \<Rightarrow> socket option \<Rightarrow> estado \<Rightarrow> estado" where
  "fallo_envio mensaje socket_destino s =
     sumar_error (manejar_error_conexion
       (registrar (Log ERROR) (registrar (EnvioFallido socket_destino mensaje) s)))"

definition enviar_mensaje_raw ::
    "biblioteca \<Rightarrow> json \<Rightarrow> socket option \<Rightarrow> estado \<Rightarrow> bool \<times> estado" where
  "enviar_mensaje_raw B mensaje socket_destino s =
     (case trama B mensaje of
        None \<Rightarrow> (False, fallo_envio mensaje socket_destino s)
      | Some f \<Rightarrow>
          (case socket_destino of
             None \<Rightarrow> (False, fallo_envio mensaje socket_destino s)
           | Some k \<Rightarrow>
               (let ok = (case envios s of [] \<Rightarrow> True | b # _ \<Rightarrow> b);
                    s1 = s\<lparr> envios := tl (envios s) \<rparr>
                in if ok then (True, registrar (Envia k mensaje f) s1)
                   else (False, fallo_envio mensaje socket_destino s1))))"

section \<open>The ACK branch of the dispatcher, and the receive thread seen from the sender\<close>

text \<open>Lines 212 and 213 of \<^verbatim>\<open>_procesar_mensaje_recibido\<close>: count and log the message.\<close>

definition recibido :: "estado \<Rightarrow> estado" where
  "recibido s =
     registrar (Log INFO)
       (s\<lparr> stats := (stats s)\<lparr> mensajes_recibidos := mensajes_recibidos (stats s) + 1 \<rparr> \<rparr>)"

text \<open>
  The branch for \<^verbatim>\<open>'ACK'\<close>. \<open>Inl\<close> is an exception raised in the state given:
  \<^verbatim>\<open>set.add\<close> raises \<^verbatim>\<open>TypeError\<close> for an unhashable id.
\<close>

definition rama_ack :: "(string \<times> json) list \<Rightarrow> estado \<Rightarrow> estado + estado" where
  "rama_ack mensaje s =
     (case clave_de (dict_get mensaje ''mensaje_id'') of
        None \<Rightarrow> Inl s
      | Some k \<Rightarrow>
          (let s1 = s\<lparr> acks_recibidos := insert k (acks_recibidos s) \<rparr>;
               s2 = s1\<lparr> stats := (stats s1)\<lparr> acks_recibidos_cnt := acks_recibidos_cnt (stats s1) + 1 \<rparr> \<rparr>;
               s3 = registrar (Log INFO) s2
           in Inr (if mensajes_pendientes s3 k \<noteq> None
                   then s3\<lparr> mensajes_pendientes := (mensajes_pendientes s3)(k := None) \<rparr>
                   else s3)))"

text \<open>
  The two \<^verbatim>\<open>except\<close> clauses of \<^verbatim>\<open>_procesar_mensaje_recibido\<close> do the same: log
  the error and count it.
\<close>

definition manejador :: "estado + estado \<Rightarrow> estado" where
  "manejador r = (case r of Inl s \<Rightarrow> sumar_error (registrar (Log ERROR) s) | Inr s \<Rightarrow> s)"

text \<open>
  What the receive thread does with an incoming \<^verbatim>\<open>{'tipo': 'ACK', 'mensaje_id': v}\<close>
  (lemma \<open>procesar_ack_es_atender\<close> below: it is \<^verbatim>\<open>_procesar_mensaje_recibido\<close> on
  that message).
\<close>

definition atender_ack :: "json \<Rightarrow> estado \<Rightarrow> estado" where
  "atender_ack v s =
     manejador (rama_ack [(''tipo'', JStr ''ACK''), (''mensaje_id'', v)] (recibido s))"

text \<open>
  \<^verbatim>\<open>time.sleep(0.1)\<close> in the polling loop of \<^verbatim>\<open>_esperar_ack\<close>: the sleep lasts
  100 ms and whatever the oracle adds, and the receive thread processes the ACK
  messages the oracle gives for this sleep.
\<close>

definition dormir_sondeo :: "estado \<Rightarrow> estado" where
  "dormir_sondeo s =
     (case llegadas s of
        [] \<Rightarrow> dormir 100 s
      | (extra, acks) # resto \<Rightarrow>
          fold atender_ack acks
            ((dormir 100 s)\<lparr> reloj := reloj s + 100 + extra, llegadas := resto \<rparr>))"

lemma atender_ack_reloj [simp]: "reloj (atender_ack v s) = reloj s"
  by (simp add: atender_ack_def manejador_def rama_ack_def recibido_def registrar_def
      sumar_error_def Let_def split: option.splits)

lemma atender_ack_timeout_ack [simp]: "timeout_ack (atender_ack v s) = timeout_ack s"
  by (simp add: atender_ack_def manejador_def rama_ack_def recibido_def registrar_def
      sumar_error_def Let_def split: option.splits)

lemma atender_ack_max_reintentos [simp]: "max_reintentos (atender_ack v s) = max_reintentos s"
  by (simp add: atender_ack_def manejador_def rama_ack_def recibido_def registrar_def
      sumar_error_def Let_def split: option.splits)

lemma fold_atender_reloj [simp]: "reloj (fold atender_ack vs s) = reloj s"
  by (induction vs arbitrary: s) simp_all

lemma fold_atender_timeout_ack [simp]: "timeout_ack (fold atender_ack vs s) = timeout_ack s"
  by (induction vs arbitrary: s) simp_all

lemma fold_atender_max_reintentos [simp]:
  "max_reintentos (fold atender_ack vs s) = max_reintentos s"
  by (induction vs arbitrary: s) simp_all

lemma dormir_sondeo_reloj: "reloj s + 100 \<le> reloj (dormir_sondeo s)"
  by (simp add: dormir_sondeo_def dormir_def registrar_def split: list.splits)

lemma dormir_sondeo_timeout_ack [simp]: "timeout_ack (dormir_sondeo s) = timeout_ack s"
  by (simp add: dormir_sondeo_def dormir_def registrar_def split: list.splits)

lemma dormir_sondeo_max_reintentos [simp]: "max_reintentos (dormir_sondeo s) = max_reintentos s"
  by (simp add: dormir_sondeo_def dormir_def registrar_def split: list.splits)

section \<open>Waiting for the acknowledgment: \<^verbatim>\<open>_esperar_ack\<close>\<close>

text \<open>
  The inner loop: until \<open>timeout_ack\<close> has passed since \<open>tiempo_inicio\<close>, look for
  the id in \<open>acks_recibidos\<close>; found, remove it and return \<^verbatim>\<open>True\<close>; otherwise
  sleep a tenth of a second. \<open>False\<close> is the loop running out of time.
\<close>

function sondear :: "clave \<Rightarrow> nat \<Rightarrow> estado \<Rightarrow> bool \<times> estado" where
  "sondear mid tiempo_inicio s =
     (if int (reloj s) - int tiempo_inicio < int (timeout_ack s) then
        (if mid \<in> acks_recibidos s
         then (True, s\<lparr> acks_recibidos := acks_recibidos s - {mid} \<rparr>)
         else sondear mid tiempo_inicio (dormir_sondeo s))
      else (False, s))"
  by pat_completeness auto
termination
proof (relation "measure (\<lambda>(m, t, s). nat (int t + int (timeout_ack s) - int (reloj s)))")
  show "wf (measure (\<lambda>(m, t, s). nat (int t + int (timeout_ack s) - int (reloj s))))"
    by simp
next
  fix mid :: clave and tiempo_inicio :: nat and s :: estado
  assume "int (reloj s) - int tiempo_inicio < int (timeout_ack s)"
  then show "((mid, tiempo_inicio, dormir_sondeo s), (mid, tiempo_inicio, s))
      \<in> measure (\<lambda>(m, t, s). nat (int t + int (timeout_ack s) - int (reloj s)))"
    using dormir_sondeo_reloj [of s] by simp
qed

declare sondear.simps [simp del]

text \<open>
  Between one state and a later one, \<open>inerte\<close> says that only the connection, the
  clock, the trace, the oracles of \<^verbatim>\<open>connect\<close> and \<^verbatim>\<open>sendall\<close> and the counters
  \<open>reconexiones\<close> and \<open>errores\<close> may differ, the clock and the two counters only
  upwards. What a trace shows of the messages, with the times, is \<open>hechos\<close>: the
  attempts to write one (whether \<^verbatim>\<open>sendall\<close> returned or raised), the deliveries to the
  callback and the prints.
\<close>

definition inerte :: "estado \<Rightarrow> estado \<Rightarrow> bool" where
  "inerte s s' \<longleftrightarrow>
     nombre s' = nombre s \<and> es_servidor s' = es_servidor s \<and> ejecutando s' = ejecutando s \<and>
     mensajes_pendientes s' = mensajes_pendientes s \<and> acks_recibidos s' = acks_recibidos s \<and>
     callback_mensaje s' = callback_mensaje s \<and> timeout_ack s' = timeout_ack s \<and>
     max_reintentos s' = max_reintentos s \<and> mensaje_id s' = mensaje_id s \<and>
     llegadas s' = llegadas s \<and>
     mensajes_enviados (stats s') = mensajes_enviados (stats s) \<and>
     mensajes_recibidos (stats s') = mensajes_recibidos (stats s) \<and>
     acks_enviados (stats s') = acks_enviados (stats s) \<and>
     acks_recibidos_cnt (stats s') = acks_recibidos_cnt (stats s) \<and>
     reconexiones (stats s) \<le> reconexiones (stats s') \<and>
     errores (stats s) \<le> errores (stats s') \<and>
     reloj s \<le> reloj s'"

datatype hecho = Intento json | Entregado json json | Impreso json json

fun hecho_de :: "nat \<times> evento \<Rightarrow> (nat \<times> hecho) option" where
  "hecho_de (t, Envia k m f) = Some (t, Intento m)"
| "hecho_de (t, EnvioFallido k m) = Some (t, Intento m)"
| "hecho_de (t, Entrega c r) = Some (t, Entregado c r)"
| "hecho_de (t, Imprime r c) = Some (t, Impreso r c)"
| "hecho_de _ = None"

fun hechos :: "(nat \<times> evento) list \<Rightarrow> (nat \<times> hecho) list" where
  "hechos [] = []"
| "hechos (x # xs) = (case hecho_de x of None \<Rightarrow> hechos xs | Some y \<Rightarrow> y # hechos xs)"

lemma inerte_refl [simp]: "inerte s s"
  by (simp add: inerte_def)

lemma inerte_trans: "inerte s s1 \<Longrightarrow> inerte s1 s2 \<Longrightarrow> inerte s s2"
  by (simp add: inerte_def)

lemma hechos_append [simp]: "hechos (xs @ ys) = hechos xs @ hechos ys"
  by (induction xs) (simp_all split: option.splits)

lemma inerte_registrar [simp]: "inerte s (registrar ev s)"
  by (simp add: inerte_def registrar_def)

lemma inerte_dormir [simp]: "inerte s (dormir d s)"
  by (simp add: inerte_def dormir_def registrar_def)

lemma inerte_sumar_error [simp]: "inerte s (sumar_error s)"
  by (simp add: inerte_def sumar_error_def)

lemma hechos_registrar:
  "hechos (traza (registrar ev s)) =
     hechos (traza s) @ (case hecho_de (reloj s, ev) of None \<Rightarrow> [] | Some y \<Rightarrow> [y])"
  by (simp add: registrar_def split: option.splits)

lemma hechos_dormir [simp]: "hechos (traza (dormir d s)) = hechos (traza s)"
  by (simp add: dormir_def registrar_def)

lemma hechos_sumar_error [simp]: "hechos (traza (sumar_error s)) = hechos (traza s)"
  by (simp add: sumar_error_def)

lemma inerte_intentar_conexion:
  "intentar_conexion s = (ok, s1) \<Longrightarrow> inerte s s1 \<and> hechos (traza s1) = hechos (traza s)"
  by (auto simp: intentar_conexion_def inerte_def registrar_def Let_def)

lemma inerte_tras_exito:
  "inerte s (tras_exito r s) \<and> hechos (traza (tras_exito r s)) = hechos (traza s)"
  by (auto simp: tras_exito_def inerte_def registrar_def Let_def split: option.splits)

lemma inerte_tras_fallo:
  "inerte s (tras_fallo r s) \<and> hechos (traza (tras_fallo r s)) = hechos (traza s)"
  by (auto simp: tras_fallo_def inerte_def registrar_def dormir_def sumar_error_def Let_def)

lemma inerte_conectar_bucle:
  "inerte s (snd (conectar_bucle r s)) \<and>
   hechos (traza (snd (conectar_bucle r s))) = hechos (traza s)"
proof (induction r s rule: conectar_bucle.induct)
  case (1 r s)
  show ?case
  proof (cases "ejecutando s \<and> r < max_reintentos s")
    case False
    then show ?thesis by (auto simp: conectar_bucle.simps [of r s])
  next
    case True
    obtain ok s1 where i: "intentar_conexion s = (ok, s1)"
      by (cases "intentar_conexion s")
    note a = inerte_intentar_conexion [OF i]
    show ?thesis
    proof (cases ok)
      case True
      with \<open>ejecutando s \<and> r < max_reintentos s\<close> i a inerte_tras_exito [of s1 r]
      show ?thesis
        by (auto simp: conectar_bucle.simps [of r s] intro: inerte_trans)
    next
      case False
      from "1.IH" [OF True i [symmetric]] False
      have ih: "inerte (tras_fallo (r + 1) s1) (snd (conectar_bucle (r + 1) (tras_fallo (r + 1) s1)))"
        "hechos (traza (snd (conectar_bucle (r + 1) (tras_fallo (r + 1) s1)))) =
           hechos (traza (tras_fallo (r + 1) s1))"
        by auto
      have "inerte s (tras_fallo (r + 1) s1)"
        using a inerte_tras_fallo [of s1 "r + 1"] by (blast intro: inerte_trans)
      with ih a inerte_tras_fallo [of s1 "r + 1"] False True i
      show ?thesis
        by (auto simp: conectar_bucle.simps [of r s] intro: inerte_trans)
    qed
  qed
qed

lemma inerte_manejar_error_conexion:
  "inerte s (manejar_error_conexion s) \<and>
   hechos (traza (manejar_error_conexion s)) = hechos (traza s)"
proof -
  define s1 where "s1 = (registrar (Log WARNING) s)\<lparr> conexion_activa := False \<rparr>"
  define s2 where "s2 = (case socket_cliente s1 of
                  None \<Rightarrow> s1
                | Some k \<Rightarrow> (registrar (Cierra k) s1)\<lparr> socket_cliente := None \<rparr>)"
  define s3 where "s3 = dormir 2000 (registrar (Log INFO) s2)"
  have a: "inerte s s2 \<and> hechos (traza s2) = hechos (traza s)"
    by (auto simp: s1_def s2_def inerte_def registrar_def split: option.splits)
  have b: "inerte s2 s3 \<and> hechos (traza s3) = hechos (traza s2)"
    by (auto simp: s3_def inerte_def registrar_def dormir_def)
  have c: "manejar_error_conexion s =
      (if \<not> es_servidor s2 \<and> ejecutando s2 then snd (conectar_bucle 0 s3) else s2)"
    unfolding manejar_error_conexion_def conectar_servidor_def s1_def s2_def s3_def Let_def
    by (rule refl)
  show ?thesis
    using a b inerte_conectar_bucle [of s3 0] by (auto simp: c intro: inerte_trans)
qed

lemma inerte_fallo_envio:
  "inerte s (fallo_envio m k s) \<and>
   hechos (traza (fallo_envio m k s)) = hechos (traza s) @ [(reloj s, Intento m)]"
proof -
  let ?a = "registrar (Log ERROR) (registrar (EnvioFallido k m) s)"
  have a: "inerte s ?a"
    by (blast intro: inerte_trans inerte_registrar)
  have b: "hechos (traza ?a) = hechos (traza s) @ [(reloj s, Intento m)]"
    by (simp add: registrar_def)
  have c: "inerte ?a (fallo_envio m k s)"
    unfolding fallo_envio_def
    using inerte_manejar_error_conexion [of ?a] inerte_sumar_error inerte_trans by blast
  have d: "hechos (traza (fallo_envio m k s)) = hechos (traza ?a)"
    unfolding fallo_envio_def using inerte_manejar_error_conexion [of ?a] by simp
  show ?thesis
    using a b c d inerte_trans by auto
qed

lemma inerte_envios [simp]: "inerte s (s\<lparr> envios := e \<rparr>)"
  by (simp add: inerte_def)

lemma enviar_mensaje_raw_casos:
  "enviar_mensaje_raw B m k s = (False, fallo_envio m k s) \<or>
   enviar_mensaje_raw B m k s = (False, fallo_envio m k (s\<lparr> envios := tl (envios s) \<rparr>)) \<or>
   (\<exists>k' f. k = Some k' \<and> trama B m = Some f \<and>
      enviar_mensaje_raw B m k s =
        (True, registrar (Envia k' m f) (s\<lparr> envios := tl (envios s) \<rparr>)))"
  by (simp add: enviar_mensaje_raw_def Let_def split: option.splits)

lemma inerte_enviar_mensaje_raw:
  "inerte s (snd (enviar_mensaje_raw B m k s)) \<and>
   hechos (traza (snd (enviar_mensaje_raw B m k s))) = hechos (traza s) @ [(reloj s, Intento m)]"
proof -
  let ?s1 = "s\<lparr> envios := tl (envios s) \<rparr>"
  have f: "inerte s (fallo_envio m k ?s1) \<and>
      hechos (traza (fallo_envio m k ?s1)) = hechos (traza s) @ [(reloj s, Intento m)]"
  proof
    have "inerte ?s1 (fallo_envio m k ?s1)"
      using inerte_fallo_envio by blast
    then show "inerte s (fallo_envio m k ?s1)"
      by (rule inerte_trans [OF inerte_envios])
    show "hechos (traza (fallo_envio m k ?s1)) = hechos (traza s) @ [(reloj s, Intento m)]"
      using inerte_fallo_envio [of ?s1 m k] by simp
  qed
  have g: "inerte s (registrar (Envia k' m f) ?s1) \<and>
      hechos (traza (registrar (Envia k' m f) ?s1)) = hechos (traza s) @ [(reloj s, Intento m)]"
    for k' f
  proof
    show "inerte s (registrar (Envia k' m f) ?s1)"
      by (rule inerte_trans [OF inerte_envios inerte_registrar])
    show "hechos (traza (registrar (Envia k' m f) ?s1)) = hechos (traza s) @ [(reloj s, Intento m)]"
      by (simp add: hechos_registrar)
  qed
  show ?thesis
    using enviar_mensaje_raw_casos [of B m k s] inerte_fallo_envio [of s m k] f g
    by (elim disjE exE conjE) simp_all
qed

lemma sondear_max_reintentos:
  "max_reintentos (snd (sondear mid t s)) = max_reintentos s"
proof (induction mid t s rule: sondear.induct)
  case (1 mid t s)
  then show ?case
    by (simp add: sondear.simps [of mid t s])
qed

text \<open>
  After a timeout, line 331: the message is written again when attempts remain and it
  is still pending.
\<close>

definition reenviar :: "biblioteca \<Rightarrow> nat \<Rightarrow> nat \<Rightarrow> estado \<Rightarrow> estado" where
  "reenviar B mid reintentos s =
     (case mensajes_pendientes s (KNum (int mid)) of
        None \<Rightarrow> s
      | Some mensaje \<Rightarrow>
          if reintentos < max_reintentos s
          then snd (enviar_mensaje_raw B mensaje (socket_cliente s) (registrar (Log WARNING) s))
          else s)"

lemma reenviar_max_reintentos:
  "max_reintentos (reenviar B mid r s) = max_reintentos s"
proof -
  have "max_reintentos (snd (enviar_mensaje_raw B m k (registrar (Log WARNING) s))) =
      max_reintentos s" for m k
    using inerte_enviar_mensaje_raw [of "registrar (Log WARNING) s" B m k]
    by (simp add: inerte_def registrar_def)
  then show ?thesis
    by (simp add: reenviar_def split: option.splits)
qed

text \<open>The outer loop of \<^verbatim>\<open>_esperar_ack\<close>; \<open>False\<close> is the loop ending.\<close>

function esperar_bucle :: "biblioteca \<Rightarrow> nat \<Rightarrow> nat \<Rightarrow> estado \<Rightarrow> bool \<times> estado" where
  "esperar_bucle B mid reintentos s =
     (if reintentos < max_reintentos s then
        (case sondear (KNum (int mid)) (reloj s) s of
           (True, s1) \<Rightarrow> (True, s1)
         | (False, s1) \<Rightarrow>
             esperar_bucle B mid (reintentos + 1) (reenviar B mid (reintentos + 1) s1))
      else (False, s))"
  by pat_completeness auto
termination
proof (relation "measure (\<lambda>(B, mid, r, s). max_reintentos s - r)", goal_cases)
  case 1
  show ?case by simp
next
  case (2 B mid reintentos s x y)
  then have "max_reintentos y = max_reintentos s"
    using sondear_max_reintentos [of "KNum (int mid)" "reloj s" s] by (metis snd_conv)
  with 2 show ?case
    by (simp add: reenviar_max_reintentos)
qed

declare esperar_bucle.simps [simp del]

definition esperar_ack :: "biblioteca \<Rightarrow> nat \<Rightarrow> estado \<Rightarrow> bool \<times> estado" where
  "esperar_ack B mid s =
     (case esperar_bucle B mid 0 s of
        (True, s1) \<Rightarrow> (True, s1)
      | (False, s1) \<Rightarrow>
          (let s2 = registrar (Log ERROR) s1
           in (False,
               if mensajes_pendientes s2 (KNum (int mid)) \<noteq> None
               then s2\<lparr> mensajes_pendientes := (mensajes_pendientes s2)(KNum (int mid) := None) \<rparr>
               else s2)))"

section \<open>Sending: \<^verbatim>\<open>enviar_mensaje\<close>\<close>

definition mensaje_de :: "json \<Rightarrow> bool \<Rightarrow> estado \<Rightarrow> json" where
  "mensaje_de contenido requiere_ack s =
     JObj [(''tipo'', JStr ''MENSAJE''),
           (''id'', JInt (int (mensaje_id s))),
           (''contenido'', contenido),
           (''remitente'', JStr (nombre s)),
           (''timestamp'', time_time s),
           (''requiere_ack'', JBool requiere_ack)]"

definition enviar_mensaje :: "biblioteca \<Rightarrow> json \<Rightarrow> bool \<Rightarrow> estado \<Rightarrow> bool \<times> estado" where
  "enviar_mensaje B contenido requiere_ack s =
     (if \<not> conexion_activa s \<or> socket_cliente s = None then
        (False, registrar (Log WARNING) s)
      else
        (let s1 = s\<lparr> mensaje_id := mensaje_id s + 1 \<rparr>;
             mensaje = mensaje_de contenido requiere_ack s1
         in case enviar_mensaje_raw B mensaje (socket_cliente s1) s1 of
              (True, s2) \<Rightarrow>
                (let s3 = s2\<lparr> stats := (stats s2)\<lparr> mensajes_enviados :=
                                          mensajes_enviados (stats s2) + 1 \<rparr> \<rparr>
                 in if requiere_ack then
                      esperar_ack B (mensaje_id s3)
                        (s3\<lparr> mensajes_pendientes :=
                               (mensajes_pendientes s3)(KNum (int (mensaje_id s3)) \<mapsto> mensaje) \<rparr>)
                    else (True, s3))
            | (False, s2) \<Rightarrow> (False, s2)))"

section \<open>The dispatcher: \<^verbatim>\<open>_procesar_mensaje_recibido\<close>\<close>

text \<open>\<^verbatim>\<open>d.get(k, v)\<close>.\<close>

definition dict_get_or :: "(string \<times> json) list \<Rightarrow> string \<Rightarrow> json \<Rightarrow> json" where
  "dict_get_or d k v = (case map_of d k of None \<Rightarrow> v | Some w \<Rightarrow> w)"

text \<open>
  The branch for \<^verbatim>\<open>'MENSAJE'\<close>: an ACK with the message's id is written when the
  id is truthy, \<open>acks_enviados\<close> is incremented whatever the write did, and then the
  content goes to the callback (or is printed when there is none).
\<close>

definition rama_mensaje ::
    "biblioteca \<Rightarrow> (string \<times> json) list \<Rightarrow> socket \<Rightarrow> estado \<Rightarrow> estado + estado" where
  "rama_mensaje B mensaje socket_cl s =
     (let mid = dict_get mensaje ''id'';
          s1 = (if verdadero mid then
                  (let ack = JObj [(''tipo'', JStr ''ACK''), (''mensaje_id'', mid)];
                       s' = snd (enviar_mensaje_raw B ack (Some socket_cl) s)
                   in s'\<lparr> stats := (stats s')\<lparr> acks_enviados := acks_enviados (stats s') + 1 \<rparr> \<rparr>)
                else s)
      in case callback_mensaje s1 of
           Some f \<Rightarrow>
             (let s2 = registrar (Entrega (dict_get mensaje ''contenido'')
                                          (dict_get mensaje ''remitente'')) s1
              in if f (dict_get mensaje ''contenido'') (dict_get mensaje ''remitente'')
                 then Inr s2 else Inl s2)
         | None \<Rightarrow>
             Inr (registrar (Imprime (dict_get_or mensaje ''remitente'' (JStr ''desconocido''))
                                     (dict_get mensaje ''contenido'')) s1))"

text \<open>
  The body of the \<^verbatim>\<open>try\<close> once \<^verbatim>\<open>json.loads\<close> has returned. A value that is not
  a dictionary has no \<^verbatim>\<open>get\<close>: \<^verbatim>\<open>AttributeError\<close>, before anything is counted.
\<close>

definition despachar :: "biblioteca \<Rightarrow> json \<Rightarrow> socket \<Rightarrow> estado \<Rightarrow> estado + estado" where
  "despachar B mensaje socket_cl s =
     (case mensaje of
        JObj d \<Rightarrow>
          (let tipo_mensaje = dict_get d ''tipo'';
               s1 = recibido s
           in if tipo_mensaje = JStr ''HEARTBEAT'' then
                Inr (snd (enviar_mensaje_raw B
                       (JObj [(''tipo'', JStr ''HEARTBEAT_RESPONSE''), (''timestamp'', time_time s1)])
                       (Some socket_cl) s1))
              else if tipo_mensaje = JStr ''HEARTBEAT_RESPONSE'' then Inr s1
              else if tipo_mensaje = JStr ''ACK'' then rama_ack d s1
              else if tipo_mensaje = JStr ''MENSAJE'' then rama_mensaje B d socket_cl s1
              else Inr s1)
      | _ \<Rightarrow> Inl s)"

definition procesar_mensaje_recibido ::
    "biblioteca \<Rightarrow> string \<Rightarrow> socket \<Rightarrow> estado \<Rightarrow> estado" where
  "procesar_mensaje_recibido B mensaje_texto socket_cl s =
     (case json_loads B mensaje_texto of
        None \<Rightarrow> manejador (Inl s)
      | Some mensaje \<Rightarrow> manejador (despachar B mensaje socket_cl s))"

section \<open>The receive loop: \<^verbatim>\<open>_recibir_completo\<close> and \<^verbatim>\<open>_manejar_cliente\<close>\<close>

text \<open>
  What the successive \<^verbatim>\<open>recv\<close> calls on a socket meet: bytes that have arrived (a
  call takes at most as many as it asked for and leaves the rest; no bytes at all is
  the peer having closed), a timeout, or another error. When the list is used up the
  peer has closed.
\<close>

datatype recv = Datos bytes | Timeout | ErrorRecv

function recibir_bucle ::
    "nat \<Rightarrow> bytes \<Rightarrow> recv list \<Rightarrow> estado \<Rightarrow> bytes option \<times> recv list \<times> estado" where
  "recibir_bucle longitud datos evs s =
     (if length datos < longitud then
        (case evs of
           [] \<Rightarrow> (None, [], s)
         | Timeout # r \<Rightarrow> recibir_bucle longitud datos r s
         | ErrorRecv # r \<Rightarrow> (None, r, registrar (Log ERROR) s)
         | Datos f # r \<Rightarrow>
             (let fragmento = take (longitud - length datos) f;
                  resto = drop (longitud - length datos) f
              in if fragmento = [] then (None, r, s)
                 else recibir_bucle longitud (datos @ fragmento)
                        (if resto = [] then r else Datos resto # r) s))
      else (Some datos, evs, s))"
  by pat_completeness auto
termination
  by (relation "measure (\<lambda>(l, d, evs, s). (l - length d) + length evs)") auto

declare recibir_bucle.simps [simp del]

definition recibir_completo ::
    "nat \<Rightarrow> recv list \<Rightarrow> estado \<Rightarrow> bytes option \<times> recv list \<times> estado" where
  "recibir_completo longitud evs s = recibir_bucle longitud [] evs s"

text \<open>What is left of a stream: one for each event and one for each byte.\<close>

fun peso :: "recv list \<Rightarrow> nat" where
  "peso [] = 0"
| "peso (Datos f # r) = Suc (length f + peso r)"
| "peso (_ # r) = Suc (peso r)"

lemma recibir_bucle_peso:
  "recibir_bucle l d evs s = (res, evs', s') \<Longrightarrow>
     peso evs' \<le> peso evs \<and> (res \<noteq> None \<longrightarrow> length d < l \<longrightarrow> peso evs' < peso evs)"
proof (induction l d evs s rule: recibir_bucle.induct)
  case (1 l d evs s)
  note p = "1.prems" [unfolded recibir_bucle.simps [of l d evs s]]
  show ?case
  proof (cases "length d < l")
    case False
    with p show ?thesis by simp
  next
    case True
    show ?thesis
    proof (cases evs)
      case Nil
      with True p show ?thesis by simp
    next
      case (Cons e r)
      show ?thesis
      proof (cases e)
        case Timeout
        with True Cons p "1.IH"(2) [OF True Cons Timeout] show ?thesis
          by auto
      next
        case ErrorRecv
        with True Cons p show ?thesis
          by auto
      next
        case (Datos f)
        let ?fr = "take (l - length d) f" and ?re = "drop (l - length d) f"
        show ?thesis
        proof (cases "?fr = []")
          case True
          with \<open>length d < l\<close> Cons Datos p show ?thesis
            by (auto simp: Let_def)
        next
          case False
          let ?evs1 = "if ?re = [] then r else Datos ?re # r"
          have r: "recibir_bucle l (d @ ?fr) ?evs1 s = (res, evs', s')"
            using \<open>length d < l\<close> Cons Datos p False
            by (simp add: Let_def)
          have ih: "peso evs' \<le> peso ?evs1"
            using "1.IH"(1) [OF \<open>length d < l\<close> Cons Datos refl refl False r] by simp
          have "f \<noteq> []" using False by auto
          then have f0: "0 < length f" by simp
          have n0: "0 < l - length d" using \<open>length d < l\<close> by simp
          have dr: "length ?re < length f"
            using f0 n0 unfolding length_drop by arith
          have "peso ?evs1 < peso evs"
          proof (cases "?re = []")
            case True
            then show ?thesis using Cons Datos by simp
          next
            case False
            then show ?thesis using Cons Datos dr by simp
          qed
          with ih show ?thesis by simp
        qed
      qed
    qed
  qed
qed

lemma manejar_bucle_decrece:
  assumes "(x, y) = recibir_completo 4 evs s" "x = Some x2" "(xa, ya) = y"
    and "(xb, yb) = recibir_completo n xa ya" "xb = Some x2b" "(xc, yc) = yb"
  shows "peso xc < peso evs"
proof -
  have a: "recibir_bucle 4 [] evs s = (Some x2, xa, ya)"
    using assms(1-3) by (simp add: recibir_completo_def)
  have b: "recibir_bucle n [] xa ya = (Some x2b, xc, yc)"
    using assms(4-6) by (simp add: recibir_completo_def)
  have "peso xa < peso evs"
    using recibir_bucle_peso [OF a] by simp
  moreover have "peso xc \<le> peso xa"
    using recibir_bucle_peso [OF b] by simp
  ultimately show ?thesis by simp
qed

text \<open>
  The loop of \<^verbatim>\<open>_manejar_cliente\<close>. The first component of the result tells whether
  the loop was left by an exception (\<^verbatim>\<open>struct.error\<close>, \<^verbatim>\<open>UnicodeDecodeError\<close>)
  rather than by \<^verbatim>\<open>break\<close> or by its condition.
\<close>

function manejar_bucle ::
    "biblioteca \<Rightarrow> socket \<Rightarrow> recv list \<Rightarrow> estado \<Rightarrow> bool \<times> recv list \<times> estado" where
  "manejar_bucle B socket_cl evs s =
     (if ejecutando s \<and> conexion_activa s then
        (case recibir_completo 4 evs s of
           (None, evs1, s1) \<Rightarrow> (False, evs1, s1)
         | (Some longitud_data, evs1, s1) \<Rightarrow>
             if longitud_data = [] then (False, evs1, s1)
             else
               (case struct_unpack_I longitud_data of
                  None \<Rightarrow> (True, evs1, s1)
                | Some longitud_mensaje \<Rightarrow>
                    (case recibir_completo longitud_mensaje evs1 s1 of
                       (None, evs2, s2) \<Rightarrow> (False, evs2, s2)
                     | (Some mensaje_data, evs2, s2) \<Rightarrow>
                         if mensaje_data = [] then (False, evs2, s2)
                         else
                           (case decode_utf8 mensaje_data of
                              None \<Rightarrow> (True, evs2, s2)
                            | Some mensaje_texto \<Rightarrow>
                                manejar_bucle B socket_cl evs2
                                  (procesar_mensaje_recibido B mensaje_texto socket_cl s2)))))
      else (False, evs, s))"
  by pat_completeness auto
termination
proof (relation "measure (\<lambda>(B, k, evs, s). peso evs)", goal_cases)
  case 1
  show ?case by simp
next
  case 2
  show ?case
    using manejar_bucle_decrece [OF 2(2) 2(3) 2(4) 2(7) 2(8) 2(9)] by simp
qed

declare manejar_bucle.simps [simp del]

definition limpiar_conexion :: "socket \<Rightarrow> estado \<Rightarrow> estado" where
  "limpiar_conexion socket_cl s =
     registrar (Log INFO) (registrar (Cierra socket_cl) (s\<lparr> conexion_activa := False \<rparr>))"

text \<open>
  \<^verbatim>\<open>_manejar_cliente\<close>: the loop, the \<^verbatim>\<open>except\<close> clause when the loop raised,
  and \<^verbatim>\<open>_limpiar_conexion\<close> in the \<^verbatim>\<open>finally\<close> clause. The result carries what is
  left of the stream.
\<close>

definition manejar_cliente ::
    "biblioteca \<Rightarrow> socket \<Rightarrow> recv list \<Rightarrow> estado \<Rightarrow> recv list \<times> estado" where
  "manejar_cliente B socket_cl evs s =
     (case manejar_bucle B socket_cl evs s of
        (excepcion, evs1, s1) \<Rightarrow>
          (evs1, limpiar_conexion socket_cl
                   (if excepcion then sumar_error (registrar (Log ERROR) s1) else s1)))"

section \<open>A small JSON library and two clients for the closed examples\<close>

text \<open>
  The theorems below hold for any JSON library. The closed examples need one to run:
  \<open>ensayo\<close> writes with \<open>texto_json\<close> and reads with \<open>leer_json\<close>, which cover
  a fragment of what \<^verbatim>\<open>json.dumps\<close> and \<^verbatim>\<open>json.loads\<close> do, the flat messages of this
  protocol. \<open>texto_json\<close> writes as \<^verbatim>\<open>json.dumps\<close> does (separators \<^verbatim>\<open>", "\<close> and
  \<^verbatim>\<open>": "\<close>) an object whose keys are strings and whose values are strings of printable
  ASCII without quote and backslash, integers, booleans, \<^verbatim>\<open>None\<close> or the float \<^verbatim>\<open>0.0\<close>.
  \<open>leer_json\<close> parses, with the white space JSON allows, an object of such members
  or a single such value: strings with the simple escapes, integers, decimal fractions
  (taken exactly), \<^verbatim>\<open>true\<close>, \<^verbatim>\<open>false\<close>, \<^verbatim>\<open>null\<close>. Outside their fragment both
  answer \<open>None\<close>.
\<close>

definition digito :: "nat \<Rightarrow> char" where
  "digito n = ''0123456789'' ! (n mod 10)"

function digitos :: "nat \<Rightarrow> string" where
  "digitos n = (if n < 10 then [digito n] else digitos (n div 10) @ [digito n])"
  by pat_completeness auto
termination
  by (relation "measure id") auto

declare digitos.simps [simp del]

definition texto_entero :: "int \<Rightarrow> string" where
  "texto_entero i = (if i < 0 then CHR ''-'' # digitos (nat (- i)) else digitos (nat i))"

definition texto_cadena :: "string \<Rightarrow> string option" where
  "texto_cadena s =
     (if list_all (\<lambda>c. 32 \<le> (of_char c :: nat) \<and> (of_char c :: nat) < 127 \<and>
                        c \<noteq> CHR 0x22 \<and> c \<noteq> CHR 0x5C) s
      then Some ([CHR 0x22] @ s @ [CHR 0x22]) else None)"

fun texto_valor :: "json \<Rightarrow> string option" where
  "texto_valor JNull = Some ''null''"
| "texto_valor (JBool b) = Some (if b then ''true'' else ''false'')"
| "texto_valor (JInt i) = Some (texto_entero i)"
| "texto_valor (JFloat (Finito r)) = (if r = 0 then Some ''0.0'' else None)"
| "texto_valor (JStr s) = texto_cadena s"
| "texto_valor _ = None"

fun unir :: "string list \<Rightarrow> string" where
  "unir [] = []"
| "unir [x] = x"
| "unir (x # y # r) = x @ '', '' @ unir (y # r)"

definition texto_par :: "string \<times> json \<Rightarrow> string option" where
  "texto_par kv =
     (case (texto_cadena (fst kv), texto_valor (snd kv)) of
        (Some k, Some v) \<Rightarrow> Some (k @ '': '' @ v)
      | _ \<Rightarrow> None)"

fun texto_json :: "json \<Rightarrow> string option" where
  "texto_json (JObj kvs) =
     (case those (map texto_par kvs) of
        None \<Rightarrow> None
      | Some ps \<Rightarrow> Some (''{'' @ unir ps @ ''}''))"
| "texto_json v = texto_valor v"


definition es_blanco :: "char \<Rightarrow> bool" where
  "es_blanco c = (c = CHR '' '' \<or> c = CHR 0x09 \<or> c = CHR 0x0A \<or> c = CHR 0x0D)"

definition es_digito :: "char \<Rightarrow> bool" where
  "es_digito c = (48 \<le> (of_char c :: nat) \<and> (of_char c :: nat) \<le> 57)"

definition saltar :: "string \<Rightarrow> string" where
  "saltar cs = dropWhile es_blanco cs"

text \<open>After the opening quote: the content of the string and what follows the closing quote.\<close>

fun leer_cadena :: "string \<Rightarrow> (string \<times> string) option" where
  "leer_cadena [] = None"
| "leer_cadena (c # r) =
     (if c = CHR 0x22 then Some ([], r)
      else if c = CHR 0x5C then
        (case r of
           [] \<Rightarrow> None
         | e # r' \<Rightarrow>
             (case (if e = CHR 0x22 then Some (CHR 0x22)
                    else if e = CHR 0x5C then Some (CHR 0x5C)
                    else if e = CHR ''/'' then Some (CHR ''/'')
                    else if e = CHR ''b'' then Some (CHR 0x08)
                    else if e = CHR ''f'' then Some (CHR 0x0C)
                    else if e = CHR ''n'' then Some (CHR 0x0A)
                    else if e = CHR ''r'' then Some (CHR 0x0D)
                    else if e = CHR ''t'' then Some (CHR 0x09)
                    else None) of
                None \<Rightarrow> None
              | Some x \<Rightarrow>
                  (case leer_cadena r' of None \<Rightarrow> None | Some (s, q) \<Rightarrow> Some (x # s, q))))
      else if (of_char c :: nat) < 32 then None
      else (case leer_cadena r of None \<Rightarrow> None | Some (s, q) \<Rightarrow> Some (c # s, q)))"

definition valor_digitos :: "string \<Rightarrow> nat" where
  "valor_digitos ds = foldl (\<lambda>a c. 10 * a + (of_char c - 48)) 0 ds"

text \<open>
  A number: an optional minus sign, an integer part without superfluous zeros, and
  possibly a fraction; an exponent is outside the fragment.
\<close>

definition leer_numero :: "string \<Rightarrow> (json \<times> string) option" where
  "leer_numero cs =
     (let neg = (case cs of c # _ \<Rightarrow> c = CHR ''-'' | [] \<Rightarrow> False);
          cs1 = (if neg then tl cs else cs);
          ds = takeWhile es_digito cs1;
          r = dropWhile es_digito cs1
      in if ds = [] \<or> (hd ds = CHR ''0'' \<and> length ds \<noteq> 1) then None
         else
           (case r of
              c # r1 \<Rightarrow>
                if c = CHR ''.'' then
                  (let fs = takeWhile es_digito r1; r2 = dropWhile es_digito r1
                   in if fs = [] then None
                      else (case r2 of
                              e # _ \<Rightarrow> if e = CHR ''e'' \<or> e = CHR ''E'' then None
                                       else Some (JFloat (Finito ((if neg then - 1 else 1) *
                                              (of_nat (valor_digitos ds) +
                                               of_nat (valor_digitos fs) / 10 ^ length fs))), r2)
                            | [] \<Rightarrow> Some (JFloat (Finito ((if neg then - 1 else 1) *
                                              (of_nat (valor_digitos ds) +
                                               of_nat (valor_digitos fs) / 10 ^ length fs))), r2)))
                else if c = CHR ''e'' \<or> c = CHR ''E'' then None
                else Some (JInt ((if neg then - 1 else 1) * int (valor_digitos ds)), r)
            | [] \<Rightarrow> Some (JInt ((if neg then - 1 else 1) * int (valor_digitos ds)), r)))"

text \<open>A value that is not a container, and what follows it.\<close>

definition leer_escalar :: "string \<Rightarrow> (json \<times> string) option" where
  "leer_escalar cs =
     (case cs of
        [] \<Rightarrow> None
      | c # r \<Rightarrow>
          if c = CHR 0x22 then
            (case leer_cadena r of None \<Rightarrow> None | Some (s, q) \<Rightarrow> Some (JStr s, q))
          else if take 4 cs = ''true'' then Some (JBool True, drop 4 cs)
          else if take 5 cs = ''false'' then Some (JBool False, drop 5 cs)
          else if take 4 cs = ''null'' then Some (JNull, drop 4 cs)
          else leer_numero cs)"

text \<open>
  The members of an object, after the opening brace or a comma, up to the closing brace.
  The fuel bounds the number of members; the length of the text is always enough.
\<close>

fun leer_miembros :: "nat \<Rightarrow> string \<Rightarrow> ((string \<times> json) list \<times> string) option" where
  "leer_miembros 0 cs = None"
| "leer_miembros (Suc n) cs =
     (case saltar cs of
        c # r \<Rightarrow>
          if c = CHR 0x22 then
            (case leer_cadena r of
               None \<Rightarrow> None
             | Some (k, q) \<Rightarrow>
                 (case saltar q of
                    d # q1 \<Rightarrow>
                      if d = CHR '':'' then
                        (case leer_escalar (saltar q1) of
                           None \<Rightarrow> None
                         | Some (v, q2) \<Rightarrow>
                             (case saltar q2 of
                                e # q3 \<Rightarrow>
                                  if e = CHR ''}'' then Some ([(k, v)], q3)
                                  else if e = CHR '','' then
                                    (case leer_miembros n q3 of
                                       None \<Rightarrow> None
                                     | Some (kvs, q4) \<Rightarrow> Some ((k, v) # kvs, q4))
                                  else None
                              | [] \<Rightarrow> None))
                      else None
                  | [] \<Rightarrow> None))
          else None
      | [] \<Rightarrow> None)"

definition leer_json :: "string \<Rightarrow> json option" where
  "leer_json t =
     (case saltar t of
        [] \<Rightarrow> None
      | c # r \<Rightarrow>
          (case (if c = CHR ''{'' then
                   (case saltar r of
                      d # r1 \<Rightarrow>
                        if d = CHR ''}'' then Some (JObj [], r1)
                        else (case leer_miembros (length t) r of
                                None \<Rightarrow> None | Some (kvs, q) \<Rightarrow> Some (JObj kvs, q))
                    | [] \<Rightarrow> None)
                 else leer_escalar (c # r)) of
             None \<Rightarrow> None
           | Some (v, q) \<Rightarrow> if saltar q = [] then Some v else None))"

definition ensayo :: biblioteca where
  "ensayo = \<lparr> json_dumps = texto_json, json_loads = leer_json \<rparr>"

text \<open>
  \<open>cliente0\<close> is a client as \<^verbatim>\<open>__init__\<close> leaves it, at time 0, with nothing
  prescribed by the oracles; \<open>cliente1\<close> is the same client running and connected.
\<close>

definition cliente0 :: estado where
  "cliente0 = init ''cliente'' False ''localhost'' 8080 0 [] [] []"

definition cliente1 :: estado where
  "cliente1 = cliente0\<lparr> ejecutando := True, conexion_activa := True, socket_cliente := Some 0,
                          sig_socket := 1 \<rparr>"

section \<open>Sending without a connection\<close>

text \<open>
  C9. When \<open>conexion_activa\<close> is false or \<open>socket_cliente\<close> is \<^verbatim>\<open>None\<close>,
  \<^verbatim>\<open>enviar_mensaje\<close> returns \<^verbatim>\<open>False\<close> at once and the state it leaves is the state
  it found with one warning added to the log: the message id, the table of pending
  messages, the counters, the clock and the oracles are the same, and nothing was
  written.
\<close>

theorem enviar_sin_conexion:
  "\<not> conexion_activa s \<or> socket_cliente s = None \<Longrightarrow>
     enviar_mensaje B contenido requiere_ack s =
       (False, s\<lparr> traza := traza s @ [(reloj s, Log WARNING)] \<rparr>)"
  by (auto simp: enviar_mensaje_def registrar_def)

theorem enviar_sin_conexion_witness:
  "\<not> conexion_activa cliente0 \<and> socket_cliente cliente0 = None \<and>
   enviar_mensaje ensayo (JStr ''hola'') True cliente0 =
     (False, cliente0\<lparr> traza := traza cliente0 @ [(reloj cliente0, Log WARNING)] \<rparr>)"
proof -
  have h: "\<not> conexion_activa cliente0 \<and> socket_cliente cliente0 = None"
    by (simp add: cliente0_def init_def)
  then have "\<not> conexion_activa cliente0 \<or> socket_cliente cliente0 = None"
    by simp
  from enviar_sin_conexion [OF this, of ensayo "JStr ''hola''" True] h show ?thesis
    by simp
qed

section \<open>Facts about writing a frame\<close>

lemma trama_Some:
  "json_dumps B m = Some t \<Longrightarrow> length t < 2 ^ 32 \<Longrightarrow>
     \<exists>l. struct_pack_I (length t) = Some l \<and> length l = 4 \<and> trama B m = Some (l @ t)"
  by (simp add: trama_def struct_pack_I_def)

lemma enviar_mensaje_raw_exito:
  "trama B m = Some f \<Longrightarrow> (case envios s of [] \<Rightarrow> True | b # _ \<Rightarrow> b) \<Longrightarrow>
     enviar_mensaje_raw B m (Some k) s =
       (True, registrar (Envia k m f) (s\<lparr> envios := tl (envios s) \<rparr>))"
  by (simp add: enviar_mensaje_raw_def Let_def)

lemma enviar_mensaje_raw_True:
  "fst (enviar_mensaje_raw B m sd s) \<Longrightarrow>
     \<exists>k f. sd = Some k \<and> trama B m = Some f \<and>
       enviar_mensaje_raw B m sd s =
         (True, registrar (Envia k m f) (s\<lparr> envios := tl (envios s) \<rparr>))"
  by (auto simp: enviar_mensaje_raw_def Let_def split: option.splits if_splits)

definition hola1 :: json where
  "hola1 = JObj [(''tipo'', JStr ''MENSAJE''), (''id'', JInt 1), (''contenido'', JStr ''hola''),
      (''remitente'', JStr ''cliente''), (''timestamp'', JFloat (Finito 0)),
      (''requiere_ack'', JBool False)]"

lemma mensaje_de_cliente1:
  "mensaje_de (JStr ''hola'') False (cliente1\<lparr> mensaje_id := mensaje_id cliente1 + 1 \<rparr>) = hola1"
  by (simp add: mensaje_de_def cliente1_def cliente0_def init_def time_time_def hola1_def)

lemma texto_hola1:
  "texto_json hola1 = Some ''{\"tipo\": \"MENSAJE\", \"id\": 1, \"contenido\": \"hola\", \"remitente\": \"cliente\", \"timestamp\": 0.0, \"requiere_ack\": false}''"
  by code_simp

section \<open>Sending without waiting for an acknowledgment\<close>

text \<open>
  C6. On an active connection, when the raw write of the message succeeds,
  \<^verbatim>\<open>enviar_mensaje\<close> with \<^verbatim>\<open>requiere_ack=False\<close> returns \<^verbatim>\<open>True\<close>, and the state it
  leaves is given in full: the id counter and \<open>mensajes_enviados\<close> are one higher, one
  outcome of the send oracle is used and the frame is in the trace; the table of pending
  messages, the set of received ACKs, the clock and the oracle of the polling loop are
  untouched, so nothing was registered and nothing was waited for.
\<close>

theorem enviar_sin_ack:
  assumes "conexion_activa s" and "socket_cliente s = Some k"
    and "fst (enviar_mensaje_raw B (mensaje_de contenido False (s\<lparr> mensaje_id := mensaje_id s + 1 \<rparr>))
           (Some k) (s\<lparr> mensaje_id := mensaje_id s + 1 \<rparr>))"
  shows "\<exists>f. trama B (mensaje_de contenido False (s\<lparr> mensaje_id := mensaje_id s + 1 \<rparr>)) = Some f \<and>
     enviar_mensaje B contenido False s =
       (True, s\<lparr> mensaje_id := mensaje_id s + 1,
                 envios := tl (envios s),
                 traza := traza s @ [(reloj s, Envia k
                    (mensaje_de contenido False (s\<lparr> mensaje_id := mensaje_id s + 1 \<rparr>)) f)],
                 stats := (stats s)\<lparr> mensajes_enviados := mensajes_enviados (stats s) + 1 \<rparr> \<rparr>)"
proof -
  let ?s1 = "s\<lparr> mensaje_id := mensaje_id s + 1 \<rparr>"
  let ?m = "mensaje_de contenido False ?s1"
  from enviar_mensaje_raw_True [OF assms(3)] obtain f where
    f: "trama B ?m = Some f" and
    r: "enviar_mensaje_raw B ?m (Some k) ?s1 =
          (True, registrar (Envia k ?m f) (?s1\<lparr> envios := tl (envios ?s1) \<rparr>))"
    by auto
  have "enviar_mensaje B contenido False s =
      (True, s\<lparr> mensaje_id := mensaje_id s + 1,
                 envios := tl (envios s),
                 traza := traza s @ [(reloj s, Envia k ?m f)],
                 stats := (stats s)\<lparr> mensajes_enviados := mensajes_enviados (stats s) + 1 \<rparr> \<rparr>)"
    using assms(1,2) r by (simp add: enviar_mensaje_def Let_def registrar_def)
  with f show ?thesis by blast
qed

theorem enviar_sin_ack_witness:
  "conexion_activa cliente1 \<and> socket_cliente cliente1 = Some 0 \<and>
   fst (enviar_mensaje_raw ensayo
          (mensaje_de (JStr ''hola'') False (cliente1\<lparr> mensaje_id := mensaje_id cliente1 + 1 \<rparr>))
          (Some 0) (cliente1\<lparr> mensaje_id := mensaje_id cliente1 + 1 \<rparr>)) \<and>
   (\<exists>f. trama ensayo (mensaje_de (JStr ''hola'') False
                (cliente1\<lparr> mensaje_id := mensaje_id cliente1 + 1 \<rparr>)) = Some f \<and>
     enviar_mensaje ensayo (JStr ''hola'') False cliente1 =
       (True, cliente1\<lparr> mensaje_id := mensaje_id cliente1 + 1,
                 envios := tl (envios cliente1),
                 traza := traza cliente1 @ [(reloj cliente1, Envia 0
                    (mensaje_de (JStr ''hola'') False
                       (cliente1\<lparr> mensaje_id := mensaje_id cliente1 + 1 \<rparr>)) f)],
                 stats := (stats cliente1)\<lparr> mensajes_enviados :=
                            mensajes_enviados (stats cliente1) + 1 \<rparr> \<rparr>))"
proof -
  let ?s1 = "cliente1\<lparr> mensaje_id := mensaje_id cliente1 + 1 \<rparr>"
  let ?m = "mensaje_de (JStr ''hola'') False ?s1"
  have a: "conexion_activa cliente1" and b: "socket_cliente cliente1 = Some 0"
    by (simp_all add: cliente1_def)
  have "json_dumps ensayo ?m = texto_json hola1"
    using mensaje_de_cliente1 by (simp add: ensayo_def)
  then obtain f where f: "trama ensayo ?m = Some f"
    using trama_Some [of ensayo ?m] texto_hola1 by fastforce
  have e: "envios ?s1 = []"
    by (simp add: cliente1_def cliente0_def init_def)
  have c: "fst (enviar_mensaje_raw ensayo ?m (Some 0) ?s1)"
    using enviar_mensaje_raw_exito [OF f, of ?s1 0] e by simp
  from enviar_sin_ack [OF a b c] a b c show ?thesis
    by simp
qed

section \<open>An ACK that nobody waits for\<close>

lemma procesar_ack_es_atender:
  "json_loads B texto = Some (JObj [(''tipo'', JStr ''ACK''), (''mensaje_id'', v)]) \<Longrightarrow>
     procesar_mensaje_recibido B texto k s = atender_ack v s"
  by (simp add: procesar_mensaje_recibido_def despachar_def atender_ack_def dict_get_def Let_def)








section \<open>Reading from the stream\<close>

lemma recibir_bucle_listo:
  "\<not> length d < l \<Longrightarrow> recibir_bucle l d evs s = (Some d, evs, s)"
  by (simp add: recibir_bucle.simps [of l d evs s])

lemma recibir_bucle_fin:
  "length d < l \<Longrightarrow> recibir_bucle l d [] s = (None, [], s)"
  by (simp add: recibir_bucle.simps [of l d "[]" s])

lemma recibir_bucle_Timeout:
  "length d < l \<Longrightarrow> recibir_bucle l d (Timeout # r) s = recibir_bucle l d r s"
  by (simp add: recibir_bucle.simps [of l d "Timeout # r" s])

lemma recibir_bucle_ErrorRecv:
  "length d < l \<Longrightarrow>
     recibir_bucle l d (ErrorRecv # r) s = (None, r, registrar (Log ERROR) s)"
  by (simp add: recibir_bucle.simps [of l d "ErrorRecv # r" s])

lemma recibir_bucle_Datos:
  "length d < l \<Longrightarrow>
     recibir_bucle l d (Datos f # r) s =
       (if f = [] then (None, r, s)
        else recibir_bucle l (d @ take (l - length d) f)
               (if drop (l - length d) f = [] then r else Datos (drop (l - length d) f) # r) s)"
  by (simp add: recibir_bucle.simps [of l d "Datos f # r" s] Let_def)

text \<open>A read that returns bytes returns exactly as many as were asked for, and logs nothing.\<close>

lemma recibir_bucle_Some:
  "recibir_bucle l d evs s = (Some x, evs', s') \<Longrightarrow> length d \<le> l \<Longrightarrow> s' = s \<and> length x = l"
proof (induction l d evs s rule: recibir_bucle.induct)
  case (1 l d evs s)
  show ?case
  proof (cases "length d < l")
    case False
    with "1.prems" show ?thesis by (simp add: recibir_bucle_listo)
  next
    case True
    show ?thesis
    proof (cases evs)
      case Nil
      with True "1.prems" show ?thesis by (simp add: recibir_bucle_fin)
    next
      case (Cons e r)
      show ?thesis
      proof (cases e)
        case Timeout
        with True Cons "1.prems" "1.IH"(2) [OF True Cons Timeout] show ?thesis
          by (simp add: recibir_bucle_Timeout)
      next
        case ErrorRecv
        with True Cons "1.prems" show ?thesis by (simp add: recibir_bucle_ErrorRecv)
      next
        case (Datos f)
        let ?fr = "take (l - length d) f" and ?re = "drop (l - length d) f"
        from True Cons Datos "1.prems"(1) have ne: "?fr \<noteq> []"
          by (auto simp: recibir_bucle_Datos split: if_splits)
        then have "f \<noteq> []" by auto
        with True Cons Datos "1.prems"(1)
        have r: "recibir_bucle l (d @ ?fr) (if ?re = [] then r else Datos ?re # r) s = (Some x, evs', s')"
          by (simp add: recibir_bucle_Datos)
        have "length (d @ ?fr) \<le> l" using True by simp
        with "1.IH"(1) [OF True Cons Datos refl refl ne r] show ?thesis by simp
      qed
    qed
  qed
qed

lemma recibir_completo_Some:
  "recibir_completo l evs s = (Some x, evs', s') \<Longrightarrow> s' = s \<and> length x = l"
  using recibir_bucle_Some [of l "[]" evs s x evs' s'] by (simp add: recibir_completo_def)

section \<open>A frame that announces an empty body\<close>

text \<open>
  C10. Asked for zero bytes, \<^verbatim>\<open>_recibir_completo\<close> returns the empty byte string
  without reading. So when the four bytes of a length prefix read as zero, the receive
  loop takes \<^verbatim>\<open>not mensaje_data\<close> for a closed connection: it stops there, nothing is
  handed to the dispatcher (the counters are those of the start), and
  \<^verbatim>\<open>_limpiar_conexion\<close> closes the socket and clears \<open>conexion_activa\<close>; the rest of the
  stream is left unread.
\<close>

theorem trama_vacia:
  assumes "ejecutando s" and "conexion_activa s"
    and "recibir_completo 4 evs s = (Some longitud_data, evs1, s1)"
    and "struct_unpack_I longitud_data = Some 0"
  shows "recibir_completo 0 evs1 s1 = (Some [], evs1, s1) \<and>
     manejar_cliente B sock evs s = (evs1, limpiar_conexion sock s) \<and>
     \<not> conexion_activa (snd (manejar_cliente B sock evs s)) \<and>
     stats (snd (manejar_cliente B sock evs s)) = stats s"
proof -
  have s1: "s1 = s" and l: "length longitud_data = 4"
    using recibir_completo_Some [OF assms(3)] by simp_all
  then have ne: "longitud_data \<noteq> []" by auto
  have z: "recibir_completo 0 evs1 s1 = (Some [], evs1, s1)"
    by (simp add: recibir_completo_def recibir_bucle_listo)
  have "manejar_bucle B sock evs s = (False, evs1, s)"
    using assms ne z s1 by (simp add: manejar_bucle.simps [of B sock evs s])
  then have m: "manejar_cliente B sock evs s = (evs1, limpiar_conexion sock s)"
    by (simp add: manejar_cliente_def)
  show ?thesis
    using z m by (simp add: limpiar_conexion_def registrar_def)
qed

theorem trama_vacia_witness:
  "ejecutando cliente1 \<and> conexion_activa cliente1 \<and>
   recibir_completo 4 [Datos [CHR 0x00, CHR 0x00], Timeout, Datos [CHR 0x00, CHR 0x00, CHR 0x00],
       Datos ''resto''] cliente1 =
     (Some [CHR 0x00, CHR 0x00, CHR 0x00, CHR 0x00],
      [Datos [CHR 0x00], Datos ''resto''], cliente1) \<and>
   struct_unpack_I [CHR 0x00, CHR 0x00, CHR 0x00, CHR 0x00] = Some 0 \<and>
   manejar_cliente ensayo 0
     [Datos [CHR 0x00, CHR 0x00], Timeout, Datos [CHR 0x00, CHR 0x00, CHR 0x00], Datos ''resto'']
     cliente1 =
     ([Datos [CHR 0x00], Datos ''resto''], limpiar_conexion 0 cliente1) \<and>
   \<not> conexion_activa (snd (manejar_cliente ensayo 0
     [Datos [CHR 0x00, CHR 0x00], Timeout, Datos [CHR 0x00, CHR 0x00, CHR 0x00], Datos ''resto'']
     cliente1))"
proof -
  let ?evs = "[Datos [CHR 0x00, CHR 0x00], Timeout, Datos [CHR 0x00, CHR 0x00, CHR 0x00],
       Datos ''resto'']"
  have a: "ejecutando cliente1" and b: "conexion_activa cliente1"
    by (simp_all add: cliente1_def)
  have c: "recibir_completo 4 ?evs cliente1 =
     (Some [CHR 0x00, CHR 0x00, CHR 0x00, CHR 0x00], [Datos [CHR 0x00], Datos ''resto''], cliente1)"
    by (simp add: recibir_completo_def recibir_bucle_Datos recibir_bucle_Timeout
        recibir_bucle_listo)
  have d: "struct_unpack_I [CHR 0x00, CHR 0x00, CHR 0x00, CHR 0x00] = Some 0"
    by simp
  from trama_vacia [OF a b c d, of ensayo 0] a b c d show ?thesis
    by (simp add: limpiar_conexion_def registrar_def)
qed

section \<open>Acknowledging a received message\<close>

lemma hechos_manejador [simp]:
  "hechos (traza (manejador r)) = hechos (traza (case r of Inl s \<Rightarrow> s | Inr s \<Rightarrow> s))"
  by (simp add: manejador_def sumar_error_def registrar_def split: sum.splits)

lemma hechos_recibido [simp]: "hechos (traza (recibido s)) = hechos (traza s)"
  by (simp add: recibido_def registrar_def)

text \<open>
  What the branch for \<^verbatim>\<open>'MENSAJE'\<close> shows in the trace, whether it ends normally or the
  callback raises: first the attempt to write the ACK, when the id is truthy, then the
  delivery.
\<close>

definition entrega_de :: "(string \<times> json) list \<Rightarrow> estado \<Rightarrow> hecho" where
  "entrega_de mensaje s =
     (case callback_mensaje s of
        Some f \<Rightarrow> Entregado (dict_get mensaje ''contenido'') (dict_get mensaje ''remitente'')
      | None \<Rightarrow> Impreso (dict_get_or mensaje ''remitente'' (JStr ''desconocido''))
                        (dict_get mensaje ''contenido''))"

definition ack_de :: "(string \<times> json) list \<Rightarrow> json" where
  "ack_de mensaje = JObj [(''tipo'', JStr ''ACK''), (''mensaje_id'', dict_get mensaje ''id'')]"

lemma rama_mensaje_hechos:
  "\<exists>t. reloj s \<le> t \<and>
     hechos (traza (case rama_mensaje B d sock s of Inl s' \<Rightarrow> s' | Inr s' \<Rightarrow> s')) =
       hechos (traza s) @
       (if verdadero (dict_get d ''id'') then [(reloj s, Intento (ack_de d))] else []) @
       [(t, entrega_de d s)] \<and>
     acks_enviados (stats (case rama_mensaje B d sock s of Inl s' \<Rightarrow> s' | Inr s' \<Rightarrow> s')) =
       acks_enviados (stats s) + (if verdadero (dict_get d ''id'') then 1 else 0)"
proof -
  let ?ack = "JObj [(''tipo'', JStr ''ACK''), (''mensaje_id'', dict_get d ''id'')]"
  let ?e = "snd (enviar_mensaje_raw B ?ack (Some sock) s)"
  define s1 where "s1 = (if verdadero (dict_get d ''id'')
      then ?e\<lparr> stats := (stats ?e)\<lparr> acks_enviados := acks_enviados (stats ?e) + 1 \<rparr> \<rparr> else s)"
  note e = inerte_enviar_mensaje_raw [of s B ?ack "Some sock"]
  have a: "hechos (traza s1) = hechos (traza s) @
      (if verdadero (dict_get d ''id'') then [(reloj s, Intento (ack_de d))] else [])"
    using e by (simp add: s1_def ack_de_def)
  have b: "callback_mensaje s1 = callback_mensaje s" "reloj s \<le> reloj s1"
    "acks_enviados (stats s1) =
       acks_enviados (stats s) + (if verdadero (dict_get d ''id'') then 1 else 0)"
    using e by (simp_all add: s1_def inerte_def)
  have r: "rama_mensaje B d sock s =
      (case callback_mensaje s1 of
         Some f \<Rightarrow>
           (let s2 = registrar (Entrega (dict_get d ''contenido'') (dict_get d ''remitente'')) s1
            in if f (dict_get d ''contenido'') (dict_get d ''remitente'') then Inr s2 else Inl s2)
       | None \<Rightarrow>
           Inr (registrar (Imprime (dict_get_or d ''remitente'' (JStr ''desconocido''))
                                   (dict_get d ''contenido'')) s1))"
    unfolding rama_mensaje_def s1_def Let_def by (rule refl)
  have "hechos (traza (case rama_mensaje B d sock s of Inl s' \<Rightarrow> s' | Inr s' \<Rightarrow> s')) =
       hechos (traza s1) @ [(reloj s1, entrega_de d s)] \<and>
     acks_enviados (stats (case rama_mensaje B d sock s of Inl s' \<Rightarrow> s' | Inr s' \<Rightarrow> s')) =
       acks_enviados (stats s1)"
    using b(1) by (simp add: r entrega_de_def registrar_def Let_def split: option.splits)
  with a b show ?thesis by auto
qed

lemma procesar_MENSAJE:
  "json_loads B texto = Some (JObj d) \<Longrightarrow> dict_get d ''tipo'' = JStr ''MENSAJE'' \<Longrightarrow>
     procesar_mensaje_recibido B texto sock s = manejador (rama_mensaje B d sock (recibido s))"
  by (simp add: procesar_mensaje_recibido_def despachar_def Let_def)

lemma procesar_MENSAJE_hechos:
  assumes "json_loads B texto = Some (JObj d)" and "dict_get d ''tipo'' = JStr ''MENSAJE''"
  shows "\<exists>t. reloj s \<le> t \<and>
     hechos (traza (procesar_mensaje_recibido B texto sock s)) =
       hechos (traza s) @
       (if verdadero (dict_get d ''id'') then [(reloj s, Intento (ack_de d))] else []) @
       [(t, entrega_de d s)]"
proof -
  have "entrega_de d (recibido s) = entrega_de d s" "reloj (recibido s) = reloj s"
    by (simp_all add: entrega_de_def recibido_def registrar_def)
  with rama_mensaje_hechos [of "recibido s" B d sock] show ?thesis
    by (auto simp: procesar_MENSAJE [OF assms])
qed

text \<open>
  C2, as the code has it. For a received message of kind \<^verbatim>\<open>'MENSAJE'\<close> the dispatcher
  attempts to write an ACK carrying the message's id exactly when that id is truthy
  (present, and not zero, empty or \<^verbatim>\<open>None\<close>); the field \<^verbatim>\<open>requiere_ack\<close> is not read.
  The attempt comes before the content and the sender are handed to the callback (or
  printed, when no callback is set).
\<close>

theorem ack_segun_id:
  assumes "json_loads B texto = Some (JObj d)" and "dict_get d ''tipo'' = JStr ''MENSAJE''"
  shows "\<exists>t. reloj s \<le> t \<and>
     hechos (traza (procesar_mensaje_recibido B texto sock s)) =
       hechos (traza s) @
       (if verdadero (dict_get d ''id'')
        then [(reloj s, Intento (JObj [(''tipo'', JStr ''ACK''), (''mensaje_id'', dict_get d ''id'')]))]
        else []) @
       [(t, case callback_mensaje s of
              Some f \<Rightarrow> Entregado (dict_get d ''contenido'') (dict_get d ''remitente'')
            | None \<Rightarrow> Impreso (dict_get_or d ''remitente'' (JStr ''desconocido''))
                              (dict_get d ''contenido''))]"
  using procesar_MENSAJE_hechos [OF assms, of s sock, unfolded ack_de_def entrega_de_def] .

definition saludo :: "(string \<times> json) list" where
  "saludo = [(''tipo'', JStr ''MENSAJE''), (''id'', JInt 1), (''contenido'', JStr ''hola''),
            (''remitente'', JStr ''servidor''), (''requiere_ack'', JBool False)]"

lemma leer_saludo:
  "json_loads ensayo ''{\"tipo\": \"MENSAJE\", \"id\": 1, \"contenido\": \"hola\", \"remitente\": \"servidor\", \"requiere_ack\": false}'' =
     Some (JObj saludo)"
  unfolding ensayo_def biblioteca.simps saludo_def by code_simp

lemma saludo_campos:
  "dict_get saludo ''tipo'' = JStr ''MENSAJE''" "dict_get saludo ''id'' = JInt 1"
  "dict_get saludo ''requiere_ack'' = JBool False"
  "dict_get saludo ''contenido'' = JStr ''hola''"
  "dict_get_or saludo ''remitente'' (JStr ''desconocido'') = JStr ''servidor''"
  by (simp_all add: saludo_def dict_get_def dict_get_or_def)

theorem ack_segun_id_witness:
  "json_loads ensayo ''{\"tipo\": \"MENSAJE\", \"id\": 1, \"contenido\": \"hola\", \"remitente\": \"servidor\", \"requiere_ack\": false}'' =
     Some (JObj saludo) \<and>
   dict_get saludo ''tipo'' = JStr ''MENSAJE'' \<and>
   (\<exists>t. hechos (traza (procesar_mensaje_recibido ensayo
       ''{\"tipo\": \"MENSAJE\", \"id\": 1, \"contenido\": \"hola\", \"remitente\": \"servidor\", \"requiere_ack\": false}''
       0 cliente1)) =
     [(0, Intento (JObj [(''tipo'', JStr ''ACK''), (''mensaje_id'', JInt 1)])),
      (t, Impreso (JStr ''servidor'') (JStr ''hola''))])"
proof -
  have c: "callback_mensaje cliente1 = None" "traza cliente1 = []" "reloj cliente1 = 0"
    by (simp_all add: cliente1_def cliente0_def init_def)
  from ack_segun_id [OF leer_saludo saludo_campos(1), of cliente1 0]
  show ?thesis
    using leer_saludo saludo_campos c by auto
qed

text \<open>
  C2 as it was stated fails: this message says that it needs no acknowledgment, and
  the dispatcher writes one all the same.
\<close>

theorem ack_no_pedido:
  "json_loads ensayo ''{\"tipo\": \"MENSAJE\", \"id\": 1, \"contenido\": \"hola\", \"remitente\": \"servidor\", \"requiere_ack\": false}'' =
     Some (JObj saludo) \<and>
   dict_get saludo ''tipo'' = JStr ''MENSAJE'' \<and>
   dict_get saludo ''requiere_ack'' = JBool False \<and>
   (0, Intento (JObj [(''tipo'', JStr ''ACK''), (''mensaje_id'', JInt 1)])) \<in>
     set (hechos (traza (procesar_mensaje_recibido ensayo
       ''{\"tipo\": \"MENSAJE\", \"id\": 1, \"contenido\": \"hola\", \"remitente\": \"servidor\", \"requiere_ack\": false}''
       0 cliente1)))"
proof -
  have c: "traza cliente1 = []" "reloj cliente1 = 0"
    by (simp_all add: cliente1_def cliente0_def init_def)
  from procesar_MENSAJE_hechos [OF leer_saludo saludo_campos(1), of cliente1 0]
  show ?thesis
    using leer_saludo saludo_campos c by (auto simp: ack_de_def)
qed

section \<open>Connection attempts and the waits between them\<close>

text \<open>The connection attempts and the sleeps of a trace, in order.\<close>

fun paso_de :: "nat \<times> evento \<Rightarrow> evento option" where
  "paso_de (t, Conecta k b) = Some (Conecta k b)"
| "paso_de (t, Duerme d) = Some (Duerme d)"
| "paso_de _ = None"

fun pasos :: "(nat \<times> evento) list \<Rightarrow> evento list" where
  "pasos [] = []"
| "pasos (x # xs) = (case paso_de x of None \<Rightarrow> pasos xs | Some y \<Rightarrow> y # pasos xs)"

fun es_conecta :: "evento \<Rightarrow> bool" where
  "es_conecta (Conecta k b) = True"
| "es_conecta _ = False"

text \<open>
  \<open>backoff_ok i xs\<close>: in \<open>xs\<close>, attempts and sleeps alternate; after \<open>i\<close> earlier
  failures, an attempt that is followed by anything has failed and is followed by a
  sleep of \<open>2 ^ (i + 1)\<close> seconds and then by the next attempt.
\<close>

fun backoff_ok :: "nat \<Rightarrow> evento list \<Rightarrow> bool" where
  "backoff_ok i [] = True"
| "backoff_ok i [Conecta k b] = True"
| "backoff_ok i (Conecta k b # Duerme d # r) =
     (b = False \<and> d = 1000 * 2 ^ (i + 1) \<and> r \<noteq> [] \<and> backoff_ok (i + 1) r)"
| "backoff_ok i _ = False"

lemma pasos_append [simp]: "pasos (xs @ ys) = pasos xs @ pasos ys"
  by (induction xs) (simp_all split: option.splits)

lemma conectar_bucle_fin:
  "\<not> (ejecutando s \<and> r < max_reintentos s) \<Longrightarrow> conectar_bucle r s = (False, s)"
  by (auto simp: conectar_bucle.simps [of r s])

lemma conectar_bucle_paso:
  "ejecutando s \<Longrightarrow> r < max_reintentos s \<Longrightarrow>
     conectar_bucle r s =
       (case intentar_conexion s of
          (True, s1) \<Rightarrow> (True, tras_exito r s1)
        | (False, s1) \<Rightarrow> conectar_bucle (r + 1) (tras_fallo (r + 1) s1))"
  by (simp add: conectar_bucle.simps [of r s])

lemma pasos_intentar_conexion:
  "intentar_conexion s = (ok, s1) \<Longrightarrow>
     pasos (traza s1) = pasos (traza s) @ [Conecta (sig_socket s) ok] \<and>
     ok = (case conexiones s of [] \<Rightarrow> False | b # _ \<Rightarrow> b) \<and>
     conexiones s1 = tl (conexiones s) \<and> stats s1 = stats s \<and>
     ejecutando s1 = ejecutando s \<and> max_reintentos s1 = max_reintentos s"
  by (auto simp: intentar_conexion_def registrar_def Let_def)

lemma pasos_tras_exito: "pasos (traza (tras_exito r s)) = pasos (traza s)"
  by (simp add: tras_exito_def registrar_def Let_def split: option.splits)

lemma pasos_tras_fallo:
  "pasos (traza (tras_fallo r s)) =
     pasos (traza s) @ (if r < max_reintentos s then [Duerme (1000 * 2 ^ r)] else [])"
  by (simp add: tras_fallo_def registrar_def dormir_def sumar_error_def Let_def)

lemma tras_fallo_campos:
  "ejecutando (tras_fallo r s) = ejecutando s \<and> conexiones (tras_fallo r s) = conexiones s \<and>
   errores (stats (tras_fallo r s)) =
     errores (stats s) + (if r < max_reintentos s then 0 else 1)"
  by (simp add: tras_fallo_def registrar_def dormir_def sumar_error_def Let_def)

text \<open>Whatever the outcomes: at most the remaining attempts, spaced as \<open>backoff_ok\<close> says.\<close>

lemma conectar_bucle_pasos:
  "\<exists>xs. pasos (traza (snd (conectar_bucle r s))) = pasos (traza s) @ xs \<and>
     backoff_ok r xs \<and> length (filter es_conecta xs) \<le> max_reintentos s - r \<and>
     (ejecutando s \<and> r < max_reintentos s \<longrightarrow> xs \<noteq> [])"
proof (induction r s rule: conectar_bucle.induct)
  case (1 r s)
  show ?case
  proof (cases "ejecutando s \<and> r < max_reintentos s")
    case False
    then show ?thesis by (auto simp: conectar_bucle_fin)
  next
    case True
    obtain ok s1 where i: "intentar_conexion s = (ok, s1)"
      by (cases "intentar_conexion s")
    note p = pasos_intentar_conexion [OF i]
    show ?thesis
    proof (cases ok)
      case True
      with \<open>ejecutando s \<and> r < max_reintentos s\<close> i p show ?thesis
        by (auto simp: conectar_bucle_paso pasos_tras_exito)
    next
      case False
      let ?s2 = "tras_fallo (r + 1) s1"
      from "1.IH" [OF True i [symmetric]] False obtain xs where
        xs: "pasos (traza (snd (conectar_bucle (r + 1) ?s2))) = pasos (traza ?s2) @ xs"
          "backoff_ok (r + 1) xs"
          "length (filter es_conecta xs) \<le> max_reintentos ?s2 - (r + 1)"
          "ejecutando ?s2 \<and> r + 1 < max_reintentos ?s2 \<longrightarrow> xs \<noteq> []"
        by auto
      have c: "conectar_bucle r s = conectar_bucle (r + 1) ?s2"
        using True i False by (simp add: conectar_bucle_paso)
      have e: "ejecutando ?s2" "max_reintentos ?s2 = max_reintentos s"
        using True p tras_fallo_campos [of "r + 1" s1] by simp_all
      show ?thesis
      proof (cases "r + 1 < max_reintentos s")
        case True
        let ?ys = "Conecta (sig_socket s) False # Duerme (1000 * 2 ^ (r + 1)) # xs"
        have ne: "xs \<noteq> []" using xs(4) e True by simp
        have "pasos (traza (snd (conectar_bucle r s))) = pasos (traza s) @ ?ys"
          using xs(1) p False True by (simp add: c pasos_tras_fallo)
        moreover have "backoff_ok r ?ys"
          using xs(2) ne by simp
        moreover have "length (filter es_conecta ?ys) \<le> max_reintentos s - r"
          using xs(3) e True by simp
        ultimately show ?thesis by blast
      next
        case f: False
        then have "\<not> (ejecutando ?s2 \<and> r + 1 < max_reintentos ?s2)"
          using e by simp
        then have "conectar_bucle (r + 1) ?s2 = (False, ?s2)"
          by (rule conectar_bucle_fin)
        then have "pasos (traza (snd (conectar_bucle r s))) =
            pasos (traza s) @ [Conecta (sig_socket s) False]"
          using p False f by (simp add: c pasos_tras_fallo)
        moreover have "length (filter es_conecta [Conecta (sig_socket s) False]) \<le>
            max_reintentos s - r"
          using True by auto
        ultimately show ?thesis by fastforce
      qed
    qed
  qed
qed

text \<open>When every attempt is refused: all the remaining attempts are made, one error is counted.\<close>

lemma conectar_bucle_agotado:
  "ejecutando s \<Longrightarrow> r < max_reintentos s \<Longrightarrow>
   \<forall>b \<in> set (take (max_reintentos s - r) (conexiones s)). \<not> b \<Longrightarrow>
     fst (conectar_bucle r s) = False \<and>
     errores (stats (snd (conectar_bucle r s))) = errores (stats s) + 1 \<and>
     length (filter es_conecta (pasos (traza (snd (conectar_bucle r s))))) =
       length (filter es_conecta (pasos (traza s))) + (max_reintentos s - r)"
proof (induction r s rule: conectar_bucle.induct)
  case (1 r s)
  have t: "ejecutando s \<and> r < max_reintentos s" using "1.prems" by simp
  obtain ok s1 where i: "intentar_conexion s = (ok, s1)"
    by (cases "intentar_conexion s")
  note p = pasos_intentar_conexion [OF i]
  obtain n where n: "max_reintentos s - r = Suc n"
    using t by (cases "max_reintentos s - r") auto
  have ok: "ok = False"
    using p "1.prems"(3) n by (cases "conexiones s") auto
  let ?s2 = "tras_fallo (r + 1) s1"
  have c: "conectar_bucle r s = conectar_bucle (r + 1) ?s2"
    using t i ok by (simp add: conectar_bucle_paso)
  have e: "ejecutando ?s2" "max_reintentos ?s2 = max_reintentos s"
      "conexiones ?s2 = tl (conexiones s)"
      "errores (stats ?s2) = errores (stats s) + (if r + 1 < max_reintentos s then 0 else 1)"
    using t p tras_fallo_campos [of "r + 1" s1] by simp_all
  have ps: "pasos (traza ?s2) = pasos (traza s) @ Conecta (sig_socket s) False #
      (if r + 1 < max_reintentos s then [Duerme (1000 * 2 ^ (r + 1))] else [])"
    using p ok by (simp add: pasos_tras_fallo)
  show ?case
  proof (cases "r + 1 < max_reintentos s")
    case True
    have "\<forall>b \<in> set (take (max_reintentos ?s2 - (r + 1)) (conexiones ?s2)). \<not> b"
    proof
      fix b assume "b \<in> set (take (max_reintentos ?s2 - (r + 1)) (conexiones ?s2))"
      moreover have "max_reintentos s - (r + 1) = n"
        using n by arith
      ultimately have "b \<in> set (take n (tl (conexiones s)))"
        using e by simp
      then have "b \<in> set (take (Suc n) (conexiones s))"
        by (cases "conexiones s") auto
      with "1.prems"(3) n show "\<not> b" by auto
    qed
    with "1.IH" [OF t i [symmetric]] ok e True
    have "fst (conectar_bucle (r + 1) ?s2) = False \<and>
      errores (stats (snd (conectar_bucle (r + 1) ?s2))) = errores (stats ?s2) + 1 \<and>
      length (filter es_conecta (pasos (traza (snd (conectar_bucle (r + 1) ?s2))))) =
        length (filter es_conecta (pasos (traza ?s2))) + (max_reintentos ?s2 - (r + 1))"
      by simp
    with e ps True show ?thesis by (simp add: c)
  next
    case False
    then have "\<not> (ejecutando ?s2 \<and> r + 1 < max_reintentos ?s2)"
      using e by simp
    then have "conectar_bucle (r + 1) ?s2 = (False, ?s2)"
      by (rule conectar_bucle_fin)
    moreover have "max_reintentos s - r = 1"
      using False t by arith
    ultimately show ?thesis
      using e ps False by (simp add: c)
  qed
qed

lemma manejar_error_conexion_cliente:
  "\<not> es_servidor s \<Longrightarrow> ejecutando s \<Longrightarrow>
     \<exists>s'. manejar_error_conexion s = snd (conectar_servidor s') \<and>
       \<not> conexion_activa s' \<and> socket_cliente s' = None \<and> reloj s' = reloj s + 2000 \<and>
       ejecutando s' \<and> max_reintentos s' = max_reintentos s \<and> conexiones s' = conexiones s"
  by (auto simp: manejar_error_conexion_def Let_def registrar_def dormir_def
      split: option.splits)

text \<open>
  C4. \<^verbatim>\<open>_conectar_servidor\<close> makes at most \<open>max_reintentos\<close> connection attempts,
  whatever their outcomes, and after the i-th failed attempt it sleeps \<open>2 ^ i\<close> seconds
  before the next one (\<open>backoff_ok\<close>). When it runs, \<open>max_reintentos\<close> is positive and
  every attempt is refused, it makes exactly \<open>max_reintentos\<close> attempts, counts one error
  and returns \<^verbatim>\<open>False\<close>; being returned, it attempts nothing more. For a running client,
  \<^verbatim>\<open>_manejar_error_conexion\<close> is what starts the attempts again, two seconds after the
  failure was detected.
\<close>

theorem conectar_con_backoff:
  "(\<exists>xs. pasos (traza (snd (conectar_servidor s))) = pasos (traza s) @ xs \<and>
      backoff_ok 0 xs \<and> length (filter es_conecta xs) \<le> max_reintentos s) \<and>
   (ejecutando s \<and> 0 < max_reintentos s \<and>
    (\<forall>b \<in> set (take (max_reintentos s) (conexiones s)). \<not> b) \<longrightarrow>
      fst (conectar_servidor s) = False \<and>
      errores (stats (snd (conectar_servidor s))) = errores (stats s) + 1 \<and>
      length (filter es_conecta (pasos (traza (snd (conectar_servidor s))))) =
        length (filter es_conecta (pasos (traza s))) + max_reintentos s) \<and>
   (\<not> es_servidor s \<and> ejecutando s \<longrightarrow>
      (\<exists>s'. manejar_error_conexion s = snd (conectar_servidor s') \<and>
         \<not> conexion_activa s' \<and> reloj s' = reloj s + 2000))"
proof (intro conjI impI)
  show "\<exists>xs. pasos (traza (snd (conectar_servidor s))) = pasos (traza s) @ xs \<and>
      backoff_ok 0 xs \<and> length (filter es_conecta xs) \<le> max_reintentos s"
    using conectar_bucle_pasos [of 0 s] by (auto simp: conectar_servidor_def)
next
  assume a: "ejecutando s \<and> 0 < max_reintentos s \<and>
    (\<forall>b \<in> set (take (max_reintentos s) (conexiones s)). \<not> b)"
  then have "fst (conectar_bucle 0 s) = False \<and>
     errores (stats (snd (conectar_bucle 0 s))) = errores (stats s) + 1 \<and>
     length (filter es_conecta (pasos (traza (snd (conectar_bucle 0 s))))) =
       length (filter es_conecta (pasos (traza s))) + (max_reintentos s - 0)"
    using conectar_bucle_agotado [of s 0] by auto
  then show "fst (conectar_servidor s) = False"
    and "errores (stats (snd (conectar_servidor s))) = errores (stats s) + 1"
    and "length (filter es_conecta (pasos (traza (snd (conectar_servidor s))))) =
        length (filter es_conecta (pasos (traza s))) + max_reintentos s"
    by (simp_all add: conectar_servidor_def)
next
  assume "\<not> es_servidor s \<and> ejecutando s"
  then show "\<exists>s'. manejar_error_conexion s = snd (conectar_servidor s') \<and>
         \<not> conexion_activa s' \<and> reloj s' = reloj s + 2000"
    using manejar_error_conexion_cliente [of s] by blast
qed

text \<open>A client that starts while the server refuses three times.\<close>

definition cliente_rechazado :: estado where
  "cliente_rechazado = cliente0\<lparr> ejecutando := True, conexiones := [False, False, False] \<rparr>"

lemma cliente_rechazado_pasos:
  "pasos (traza (snd (conectar_servidor cliente_rechazado))) =
     [Conecta 0 False, Duerme 2000, Conecta 1 False, Duerme 4000, Conecta 2 False]"
  by (simp add: conectar_servidor_def conectar_bucle_paso conectar_bucle_fin
      cliente_rechazado_def cliente0_def init_def intentar_conexion_def tras_fallo_def
      registrar_def dormir_def sumar_error_def Let_def)

theorem conectar_con_backoff_witness:
  "ejecutando cliente_rechazado \<and> max_reintentos cliente_rechazado = 3 \<and>
   take (max_reintentos cliente_rechazado) (conexiones cliente_rechazado) = [False, False, False] \<and>
   fst (conectar_servidor cliente_rechazado) = False \<and>
   errores (stats (snd (conectar_servidor cliente_rechazado))) = 1 \<and>
   length (filter es_conecta (pasos (traza (snd (conectar_servidor cliente_rechazado))))) = 3 \<and>
   pasos (traza (snd (conectar_servidor cliente_rechazado))) =
     [Conecta 0 False, Duerme 2000, Conecta 1 False, Duerme 4000, Conecta 2 False]"
proof -
  have a: "ejecutando cliente_rechazado" "max_reintentos cliente_rechazado = 3"
    "conexiones cliente_rechazado = [False, False, False]"
    "errores (stats cliente_rechazado) = 0" "traza cliente_rechazado = []"
    by (simp_all add: cliente_rechazado_def cliente0_def init_def)
  then have h: "ejecutando cliente_rechazado \<and> 0 < max_reintentos cliente_rechazado \<and>
    (\<forall>b \<in> set (take (max_reintentos cliente_rechazado) (conexiones cliente_rechazado)). \<not> b)"
    by simp
  from conectar_con_backoff [of cliente_rechazado] h a cliente_rechazado_pasos
  show ?thesis by simp
qed

section \<open>The counters across connections\<close>

lemma manejar_error_conexion_reconecta:
  assumes "\<not> es_servidor s" and "ejecutando s" and "0 < max_reintentos s"
    and "conexiones s = True # cs"
  shows "conexion_activa (manejar_error_conexion s)"
proof -
  from manejar_error_conexion_cliente [OF assms(1,2)] obtain s' where
    s': "manejar_error_conexion s = snd (conectar_servidor s')" "ejecutando s'"
      "max_reintentos s' = max_reintentos s" "conexiones s' = conexiones s"
    by blast
  have "conexion_activa (snd (conectar_bucle 0 s'))"
    using s' assms(3,4)
    by (simp add: conectar_bucle_paso intentar_conexion_def tras_exito_def registrar_def Let_def)
  then show ?thesis
    by (simp add: s' conectar_servidor_def)
qed

text \<open>
  C7, as the code has it. The six counters are zero when the object is built, and
  that is the only place where they are set: \<^verbatim>\<open>_conectar_servidor\<close>, at the first
  connection as at a reconnection by \<^verbatim>\<open>_manejar_error_conexion\<close>, leaves
  \<open>mensajes_enviados\<close>, \<open>mensajes_recibidos\<close>, \<open>acks_enviados\<close> and
  \<open>acks_recibidos\<close> as they are and never lowers \<open>reconexiones\<close> and \<open>errores\<close>.
\<close>

theorem contadores_conservados:
  "stats (init nom srv h p t cs es ls) =
     \<lparr> mensajes_enviados = 0, mensajes_recibidos = 0, acks_enviados = 0,
       acks_recibidos_cnt = 0, reconexiones = 0, errores = 0 \<rparr> \<and>
   mensajes_enviados (stats (snd (conectar_servidor s))) = mensajes_enviados (stats s) \<and>
   mensajes_recibidos (stats (snd (conectar_servidor s))) = mensajes_recibidos (stats s) \<and>
   acks_enviados (stats (snd (conectar_servidor s))) = acks_enviados (stats s) \<and>
   acks_recibidos_cnt (stats (snd (conectar_servidor s))) = acks_recibidos_cnt (stats s) \<and>
   reconexiones (stats s) \<le> reconexiones (stats (snd (conectar_servidor s))) \<and>
   errores (stats s) \<le> errores (stats (snd (conectar_servidor s))) \<and>
   mensajes_enviados (stats (manejar_error_conexion s)) = mensajes_enviados (stats s) \<and>
   mensajes_recibidos (stats (manejar_error_conexion s)) = mensajes_recibidos (stats s) \<and>
   acks_enviados (stats (manejar_error_conexion s)) = acks_enviados (stats s) \<and>
   acks_recibidos_cnt (stats (manejar_error_conexion s)) = acks_recibidos_cnt (stats s) \<and>
   reconexiones (stats s) \<le> reconexiones (stats (manejar_error_conexion s)) \<and>
   errores (stats s) \<le> errores (stats (manejar_error_conexion s))"
proof -
  have a: "inerte s (snd (conectar_servidor s))"
    using inerte_conectar_bucle [of s 0] by (simp add: conectar_servidor_def)
  have b: "inerte s (manejar_error_conexion s)"
    using inerte_manejar_error_conexion [of s] by simp
  have c: "stats (init nom srv h p t cs es ls) =
     \<lparr> mensajes_enviados = 0, mensajes_recibidos = 0, acks_enviados = 0,
       acks_recibidos_cnt = 0, reconexiones = 0, errores = 0 \<rparr>"
    by (simp add: init_def)
  show ?thesis
    using a b c unfolding inerte_def by blast
qed

text \<open>
  C7 as it was stated fails. This client has sent one message; its connection fails,
  \<^verbatim>\<open>_manejar_error_conexion\<close> reconnects at the first attempt, and the new connection
  starts with \<open>mensajes_enviados\<close> at one.
\<close>

definition cliente_usado :: estado where
  "cliente_usado =
     cliente1\<lparr> stats := (stats cliente1)\<lparr> mensajes_enviados := 1 \<rparr>, conexiones := [True] \<rparr>"

theorem reconexion_sin_reinicio:
  "conexion_activa (manejar_error_conexion cliente_usado) \<and>
   mensajes_enviados (stats (manejar_error_conexion cliente_usado)) = 1"
proof -
  have a: "\<not> es_servidor cliente_usado" "ejecutando cliente_usado"
    "0 < max_reintentos cliente_usado" "conexiones cliente_usado = True # []"
    "mensajes_enviados (stats cliente_usado) = 1"
    by (simp_all add: cliente_usado_def cliente1_def cliente0_def init_def)
  have "inerte cliente_usado (manejar_error_conexion cliente_usado)"
    using inerte_manejar_error_conexion [of cliente_usado] by simp
  then have "mensajes_enviados (stats (manejar_error_conexion cliente_usado)) = 1"
    using a(5) by (simp add: inerte_def)
  with manejar_error_conexion_reconecta [OF a(1-4)] show ?thesis by simp
qed

section \<open>Frames across the stream\<close>

lemma reconstruir:
  assumes "n < 2 ^ 32"
  shows "((n div 2 ^ 24 mod 256 * 256 + n div 2 ^ 16 mod 256) * 256 + n div 2 ^ 8 mod 256) * 256
      + n mod 256 = (n::nat)"
proof -
  define a where "a = n div 256"
  define b where "b = a div 256"
  define c where "c = b div 256"
  have b2: "n div 2 ^ 16 = b"
    unfolding b_def a_def by (simp add: div_mult2_eq [symmetric])
  have c2: "n div 2 ^ 24 = c"
    unfolding c_def b_def a_def by (simp add: div_mult2_eq [symmetric])
  have a2: "n div 2 ^ 8 = a"
    unfolding a_def by simp
  have "c < 256"
    using assms unfolding c2 [symmetric] by (simp add: less_mult_imp_div_less)
  then have cm: "c mod 256 = c" by simp
  have n: "n = a * 256 + n mod 256" unfolding a_def by simp
  have a: "a = b * 256 + a mod 256" unfolding b_def by simp
  have b: "b = c * 256 + b mod 256" unfolding c_def by simp
  have "((c * 256 + b mod 256) * 256 + a mod 256) * 256 + n mod 256 = n"
    using n a b by simp
  then show ?thesis
    by (simp only: a2 b2 c2 cm)
qed

lemma struct_unpack_pack:
  assumes "struct_pack_I n = Some b"
  shows "struct_unpack_I b = Some n \<and> length b = 4"
proof -
  have n: "n < 2 ^ 32" and b: "b = [char_of (n div 2 ^ 24), char_of (n div 2 ^ 16),
      char_of (n div 2 ^ 8), char_of n]"
    using assms by (auto simp: struct_pack_I_def split: if_splits)
  have "struct_unpack_I b =
      Some (((of_char (char_of (n div 2 ^ 24)) * 256 + of_char (char_of (n div 2 ^ 16))) * 256
        + of_char (char_of (n div 2 ^ 8))) * 256 + of_char (char_of n))"
    unfolding b by (simp only: struct_unpack_I.simps)
  also have "\<dots> = Some n"
    by (simp only: of_char_of reconstruir [OF n])
  finally have u: "struct_unpack_I b = Some n" .
  have "length b = 4"
    by (simp add: b)
  with u show ?thesis
    by (rule conjI)
qed



text \<open>
  The bytes that a list of \<^verbatim>\<open>recv\<close> outcomes carries, and the lists in which nothing
  but data and timeouts occur.
\<close>

fun flujo :: "recv list \<Rightarrow> bytes" where
  "flujo [] = []"
| "flujo (Datos f # r) = f @ flujo r"
| "flujo (_ # r) = flujo r"

fun limpio :: "recv list \<Rightarrow> bool" where
  "limpio [] = True"
| "limpio (Datos f # r) = (f \<noteq> [] \<and> limpio r)"
| "limpio (Timeout # r) = limpio r"
| "limpio (ErrorRecv # r) = False"

text \<open>
  However the bytes are cut into fragments and whatever timeouts come in between,
  \<^verbatim>\<open>_recibir_completo\<close> returns the next \<open>l\<close> bytes of the stream and leaves the bytes
  after them.
\<close>

lemma recibir_bucle_flujo:
  "limpio pre \<Longrightarrow> l \<le> length d + length (flujo pre) \<Longrightarrow> length d \<le> l \<Longrightarrow>
     \<exists>pre'. limpio pre' \<and> flujo pre' = drop (l - length d) (flujo pre) \<and>
       recibir_bucle l d (pre @ post) s =
         (Some (d @ take (l - length d) (flujo pre)), pre' @ post, s)"
proof (induction pre arbitrary: d)
  case Nil
  then show ?case by (simp add: recibir_bucle_listo)
next
  case (Cons e r)
  show ?case
  proof (cases "length d < l")
    case False
    with Cons.prems have "length d = l" by simp
    then have "recibir_bucle l d ((e # r) @ post) s = (Some d, (e # r) @ post, s)"
      by (simp add: recibir_bucle_listo)
    with Cons.prems(1) \<open>length d = l\<close> show ?thesis by auto
  next
    case True
    show ?thesis
    proof (cases e)
      case Timeout
      with Cons True show ?thesis by (simp add: recibir_bucle_Timeout)
    next
      case ErrorRecv
      with Cons.prems show ?thesis by simp
    next
      case (Datos f)
      let ?k = "l - length d"
      have f: "f \<noteq> []" and lr: "limpio r" using Cons.prems(1) Datos by simp_all
      have k: "0 < ?k" using True by simp
      show ?thesis
      proof (cases "drop ?k f = []")
        case True
        then have fk: "length f \<le> ?k" by simp
        have "l \<le> length (d @ f) + length (flujo r)" "length (d @ f) \<le> l"
          using Cons.prems(2) Datos fk \<open>length d < l\<close> by simp_all
        from Cons.IH [OF lr this] obtain pre' where
          p: "limpio pre'" "flujo pre' = drop (l - length (d @ f)) (flujo r)"
            "recibir_bucle l (d @ f) (r @ post) s =
               (Some ((d @ f) @ take (l - length (d @ f)) (flujo r)), pre' @ post, s)"
          by blast
        have "recibir_bucle l d ((e # r) @ post) s = recibir_bucle l (d @ f) (r @ post) s"
          using \<open>length d < l\<close> Datos f True fk by (simp add: recibir_bucle_Datos)
        moreover have "l - length (d @ f) = ?k - length f" by simp
        ultimately show ?thesis
          using p Datos fk by auto
      next
        case False
        then have fk: "?k < length f" by simp
        have "recibir_bucle l d ((e # r) @ post) s =
            recibir_bucle l (d @ take ?k f) (Datos (drop ?k f) # r @ post) s"
          using \<open>length d < l\<close> Datos f False by (simp add: recibir_bucle_Datos)
        also have "\<dots> = (Some (d @ take ?k f), Datos (drop ?k f) # r @ post, s)"
          using fk \<open>length d < l\<close> by (simp add: recibir_bucle_listo)
        finally have "recibir_bucle l d ((e # r) @ post) s =
            (Some (d @ take ?k (flujo (e # r))), (Datos (drop ?k f) # r) @ post, s)"
          using Datos fk by simp
        moreover have "limpio (Datos (drop ?k f) # r)"
          using False lr by simp
        moreover have "flujo (Datos (drop ?k f) # r) = drop ?k (flujo (e # r))"
          using Datos fk by simp
        ultimately show ?thesis by blast
      qed
    qed
  qed
qed

lemma recibir_completo_flujo:
  "limpio pre \<Longrightarrow> flujo pre = x @ y \<Longrightarrow>
     \<exists>pre'. limpio pre' \<and> flujo pre' = y \<and>
       recibir_completo (length x) (pre @ post) s = (Some x, pre' @ post, s)"
  using recibir_bucle_flujo [of pre "length x" "[]" post s]
  by (simp add: recibir_completo_def)

text \<open>
  What one turn of the loop of \<^verbatim>\<open>_manejar_cliente\<close> reads (lines 166 to 179): the four
  bytes of the length, that many bytes, and their decoding as UTF-8. \<open>Fin\<close> is a
  \<^verbatim>\<open>break\<close>, \<open>Fallo\<close> an exception, \<open>Texto\<close> the text that goes to the dispatcher.
  \<open>decodificar\<close> is what the receiver then deserialises.
\<close>

datatype lectura = Fin | Fallo | Texto string

definition leer_trama :: "recv list \<Rightarrow> estado \<Rightarrow> lectura \<times> recv list \<times> estado" where
  "leer_trama evs s =
     (case recibir_completo 4 evs s of
        (None, evs1, s1) \<Rightarrow> (Fin, evs1, s1)
      | (Some longitud_data, evs1, s1) \<Rightarrow>
          if longitud_data = [] then (Fin, evs1, s1)
          else
            (case struct_unpack_I longitud_data of
               None \<Rightarrow> (Fallo, evs1, s1)
             | Some longitud_mensaje \<Rightarrow>
                 (case recibir_completo longitud_mensaje evs1 s1 of
                    (None, evs2, s2) \<Rightarrow> (Fin, evs2, s2)
                  | (Some mensaje_data, evs2, s2) \<Rightarrow>
                      if mensaje_data = [] then (Fin, evs2, s2)
                      else
                        (case decode_utf8 mensaje_data of
                           None \<Rightarrow> (Fallo, evs2, s2)
                         | Some mensaje_texto \<Rightarrow> (Texto mensaje_texto, evs2, s2)))))"


text \<open>The loop is made of such turns.\<close>

lemma manejar_bucle_leer:
  "manejar_bucle B k evs s =
     (if ejecutando s \<and> conexion_activa s then
        (case leer_trama evs s of
           (Fin, evs1, s1) \<Rightarrow> (False, evs1, s1)
         | (Fallo, evs1, s1) \<Rightarrow> (True, evs1, s1)
         | (Texto t, evs1, s1) \<Rightarrow>
             manejar_bucle B k evs1 (procesar_mensaje_recibido B t k s1))
      else (False, evs, s))"
  by (simp add: manejar_bucle.simps [of B k evs s] leer_trama_def
      split: prod.splits option.splits)

text \<open>One turn of the receive loop on a stream that starts with a whole frame.\<close>

lemma leer_trama_entera:
  assumes "trama B m = Some f" and "json_dumps B m = Some t" and "t \<noteq> []"
    and "decode_utf8 t = Some t"
    and "limpio pre" and "flujo pre = f @ extra"
  shows "\<exists>pre'. limpio pre' \<and> flujo pre' = extra \<and>
     leer_trama (pre @ post) s = (Texto t, pre' @ post, s)"
proof -
  from assms(1,2) obtain cab where
    cab: "struct_pack_I (length t) = Some cab" and f: "f = cab @ t"
    by (auto simp: trama_def split: option.splits)
  note u = struct_unpack_pack [OF cab]
  have "flujo pre = cab @ (t @ extra)" using assms(6) f by simp
  from recibir_completo_flujo [OF assms(5) this, of post s] u obtain p1 where
    p1: "limpio p1" "flujo p1 = t @ extra"
      "recibir_completo 4 (pre @ post) s = (Some cab, p1 @ post, s)"
    by auto
  from recibir_completo_flujo [OF p1(1,2), of post s] obtain p2 where
    p2: "limpio p2" "flujo p2 = extra"
      "recibir_completo (length t) (p1 @ post) s = (Some t, p2 @ post, s)"
    by auto
  have ne: "cab \<noteq> []" using u by auto
  have "leer_trama (pre @ post) s = (Texto t, p2 @ post, s)"
    using assms(3,4) p1(3) p2(3) u ne by (simp add: leer_trama_def)
  with p2 show ?thesis by blast
qed

text \<open>When only timeouts are left, the next read finds the stream closed.\<close>

lemma recibir_bucle_agotado:
  "limpio pre \<Longrightarrow> flujo pre = [] \<Longrightarrow> length d < l \<Longrightarrow>
     recibir_bucle l d pre s = (None, [], s)"
proof (induction pre)
  case Nil
  then show ?case by (simp add: recibir_bucle_fin)
next
  case (Cons e r)
  then show ?case
    by (cases e) (simp_all add: recibir_bucle_Timeout)
qed

lemma manejar_bucle_agotado:
  assumes "limpio pre" and "flujo pre = []"
  shows "\<exists>resto. manejar_bucle B k pre s = (False, resto, s)"
proof (cases "ejecutando s \<and> conexion_activa s")
  case True
  have "recibir_completo 4 pre s = (None, [], s)"
    using recibir_bucle_agotado [OF assms, of "[]" 4 s] by (simp add: recibir_completo_def)
  with True show ?thesis
    by (simp add: manejar_bucle.simps [of B k pre s])
next
  case False
  then show ?thesis
    by (auto simp: manejar_bucle.simps [of B k pre s])
qed


definition ack17 :: json where
  "ack17 = JObj [(''tipo'', JStr ''ACK''), (''mensaje_id'', JInt 17)]"

definition texto17 :: string where
  "texto17 = ''{\"tipo\": \"ACK\", \"mensaje_id\": 17}''"

definition trama17 :: bytes where
  "trama17 = [CHR 0x00, CHR 0x00, CHR 0x00, CHR 0x21] @ texto17"


lemma dumps_ack17: "json_dumps ensayo ack17 = Some texto17"
  unfolding ensayo_def biblioteca.simps ack17_def texto17_def by code_simp

lemma loads_texto17: "json_loads ensayo texto17 = Some ack17"
  unfolding ensayo_def biblioteca.simps ack17_def texto17_def by code_simp

lemma pack_33: "struct_pack_I 33 = Some [CHR 0x00, CHR 0x00, CHR 0x00, CHR 0x21]"
  by (simp add: struct_pack_I_def char_of_eq_iff)

lemma trama_ack17: "trama ensayo ack17 = Some trama17"
proof -
  have "length texto17 = 33"
    by (simp add: texto17_def)
  then show ?thesis
    by (simp only: trama_def dumps_ack17 option.case pack_33 trama17_def)
qed

lemma utf8_texto17: "decode_utf8 texto17 = Some texto17"
  by (simp add: decode_utf8_def texto17_def)







section \<open>Payloads the receiver cannot use\<close>

text \<open>
  Inside \<^verbatim>\<open>_procesar_mensaje_recibido\<close> nothing gets out: a text that is not JSON is
  logged and counted as an error, a message of an unknown kind is counted and logged as
  received, and in both cases the flags of the loop are as before.
\<close>

lemma procesar_no_json:
  "json_loads B t = None \<Longrightarrow>
     procesar_mensaje_recibido B t sock s = sumar_error (registrar (Log ERROR) s)"
  by (simp add: procesar_mensaje_recibido_def manejador_def)

lemma procesar_tipo_desconocido:
  assumes "json_loads B t = Some (JObj d)"
    and "dict_get d ''tipo'' \<noteq> JStr ''HEARTBEAT''"
    and "dict_get d ''tipo'' \<noteq> JStr ''HEARTBEAT_RESPONSE''"
    and "dict_get d ''tipo'' \<noteq> JStr ''ACK''"
    and "dict_get d ''tipo'' \<noteq> JStr ''MENSAJE''"
  shows "procesar_mensaje_recibido B t sock s = recibido s"
  using assms by (simp add: procesar_mensaje_recibido_def despachar_def manejador_def)

lemma descartado_sigue:
  "ejecutando (sumar_error (registrar (Log ERROR) s)) = ejecutando s \<and>
   conexion_activa (sumar_error (registrar (Log ERROR) s)) = conexion_activa s \<and>
   ejecutando (recibido s) = ejecutando s \<and>
   conexion_activa (recibido s) = conexion_activa s"
  by (simp add: sumar_error_def registrar_def recibido_def)

text \<open>
  The bytes of the payload are decoded in \<^verbatim>\<open>_manejar_cliente\<close>, before
  \<^verbatim>\<open>_procesar_mensaje_recibido\<close> is called and outside its \<^verbatim>\<open>try\<close>. A payload that is
  not UTF-8 raises there, in the loop.
\<close>

lemma manejar_bucle_no_utf8:
  assumes "ejecutando s" and "conexion_activa s"
    and "recibir_completo 4 evs s = (Some longitud_data, evs1, s)"
    and "struct_unpack_I longitud_data = Some n"
    and "recibir_completo n evs1 s = (Some mensaje_data, evs2, s)"
    and "mensaje_data \<noteq> []" and "decode_utf8 mensaje_data = None"
  shows "manejar_bucle B sock evs s = (True, evs2, s)"
proof -
  have "longitud_data \<noteq> []"
    using assms(4) by auto
  with assms show ?thesis
    by (simp add: manejar_bucle.simps [of B sock evs s])
qed

text \<open>Two frames of one byte each, then an ACK for message 17.\<close>

definition trama_ff :: bytes where
  "trama_ff = [CHR 0x00, CHR 0x00, CHR 0x00, CHR 0x01, CHR 0xFF]"

definition trama_llave :: bytes where
  "trama_llave = [CHR 0x00, CHR 0x00, CHR 0x00, CHR 0x01, CHR 0x7B]"

text \<open>
  C8. The payload \<^verbatim>\<open>b'\xff'\<close> is not JSON, and the receive loop does not drop it: it
  ends there with an error, the connection is cleaned up and the ACK that follows is
  never read. The payload \<^verbatim>\<open>b'{'\<close>, which is not JSON either, is dropped as the claim
  says: it is counted as an error and the loop goes on to the ACK.
\<close>

theorem carga_no_utf8:
  "manejar_cliente ensayo 0 [Datos trama_ff, Datos trama17] cliente1 =
     ([Datos trama17], limpiar_conexion 0 (sumar_error (registrar (Log ERROR) cliente1))) \<and>
   \<not> conexion_activa (snd (manejar_cliente ensayo 0 [Datos trama_ff, Datos trama17] cliente1)) \<and>
   acks_recibidos (snd (manejar_cliente ensayo 0 [Datos trama_ff, Datos trama17] cliente1)) = {} \<and>
   json_loads ensayo [CHR 0x7B] = None \<and>
   snd (manejar_cliente ensayo 0 [Datos trama_llave, Datos trama17] cliente1) =
     limpiar_conexion 0
       (manejador (despachar ensayo ack17 0 (sumar_error (registrar (Log ERROR) cliente1)))) \<and>
   acks_recibidos (snd (manejar_cliente ensayo 0 [Datos trama_llave, Datos trama17] cliente1)) =
     {KNum 17}"
proof -
  let ?e = "sumar_error (registrar (Log ERROR) cliente1)"
  have a: "ejecutando cliente1" "conexion_activa cliente1"
    by (simp_all add: cliente1_def)
  have c0: "acks_recibidos cliente1 = {}"
    by (simp add: cliente1_def cliente0_def init_def)
  have r1: "recibir_completo 4 [Datos trama_ff, Datos trama17] cliente1 =
      (Some [CHR 0x00, CHR 0x00, CHR 0x00, CHR 0x01], [Datos [CHR 0xFF], Datos trama17], cliente1)"
    by (simp add: recibir_completo_def trama_ff_def recibir_bucle_Datos recibir_bucle_listo)
  have r2: "recibir_completo 1 [Datos [CHR 0xFF], Datos trama17] cliente1 =
      (Some [CHR 0xFF], [Datos trama17], cliente1)"
    by (simp add: recibir_completo_def recibir_bucle_Datos recibir_bucle_listo)
  have u: "struct_unpack_I [CHR 0x00, CHR 0x00, CHR 0x00, CHR 0x01] = Some 1"
    by simp
  have d: "decode_utf8 [CHR 0xFF] = None"
    by (simp add: decode_utf8_def)
  have b1: "manejar_bucle ensayo 0 [Datos trama_ff, Datos trama17] cliente1 =
      (True, [Datos trama17], cliente1)"
    by (rule manejar_bucle_no_utf8 [OF a r1 u r2 _ d]) simp
  have m1: "manejar_cliente ensayo 0 [Datos trama_ff, Datos trama17] cliente1 =
      ([Datos trama17], limpiar_conexion 0 ?e)"
    by (simp add: manejar_cliente_def b1)
  have f1: "\<not> conexion_activa (limpiar_conexion 0 ?e)"
    "acks_recibidos (limpiar_conexion 0 ?e) = {}"
    using c0 by (simp_all add: limpiar_conexion_def registrar_def sumar_error_def)
  have j: "json_loads ensayo [CHR 0x7B] = None"
    unfolding ensayo_def biblioteca.simps by code_simp
  have r3: "recibir_completo 4 [Datos trama_llave, Datos trama17] cliente1 =
      (Some [CHR 0x00, CHR 0x00, CHR 0x00, CHR 0x01], [Datos [CHR 0x7B], Datos trama17], cliente1)"
    by (simp add: recibir_completo_def trama_llave_def recibir_bucle_Datos recibir_bucle_listo)
  have r4: "recibir_completo 1 [Datos [CHR 0x7B], Datos trama17] cliente1 =
      (Some [CHR 0x7B], [Datos trama17], cliente1)"
    by (simp add: recibir_completo_def recibir_bucle_Datos recibir_bucle_listo)
  have d2: "decode_utf8 [CHR 0x7B] = Some [CHR 0x7B]"
    by (simp add: decode_utf8_def)
  have b2: "manejar_bucle ensayo 0 [Datos trama_llave, Datos trama17] cliente1 =
      manejar_bucle ensayo 0 [Datos trama17] ?e"
    using a r3 r4 u d2 procesar_no_json [OF j, of 0 cliente1]
    by (simp add: manejar_bucle.simps [of ensayo 0 "[Datos trama_llave, Datos trama17]" cliente1])
  have ae: "ejecutando ?e" "conexion_activa ?e"
    using a descartado_sigue [of cliente1] by simp_all
  have t17: "limpio [Datos trama17]" "flujo [Datos trama17] = trama17 @ []"
    by (simp_all add: trama17_def)
  have c: "texto17 \<noteq> []"
    by (simp add: texto17_def)
  from leer_trama_entera [OF trama_ack17 dumps_ack17 c utf8_texto17 t17, of "[]" ?e]
  obtain p where p: "limpio p" "flujo p = []" "leer_trama [Datos trama17] ?e = (Texto texto17, p, ?e)"
    by auto
  have q: "procesar_mensaje_recibido ensayo texto17 0 ?e = manejador (despachar ensayo ack17 0 ?e)"
    by (simp add: procesar_mensaje_recibido_def loads_texto17)
  have b3: "manejar_bucle ensayo 0 [Datos trama17] ?e =
      manejar_bucle ensayo 0 p (manejador (despachar ensayo ack17 0 ?e))"
    using ae p(3) q by (simp add: manejar_bucle_leer [of ensayo 0 "[Datos trama17]" ?e])
  from manejar_bucle_agotado [OF p(1,2), of ensayo 0 "manejador (despachar ensayo ack17 0 ?e)"]
  obtain resto where b4: "manejar_bucle ensayo 0 p (manejador (despachar ensayo ack17 0 ?e)) =
      (False, resto, manejador (despachar ensayo ack17 0 ?e))"
    by blast
  have m2: "snd (manejar_cliente ensayo 0 [Datos trama_llave, Datos trama17] cliente1) =
      limpiar_conexion 0 (manejador (despachar ensayo ack17 0 ?e))"
    by (simp add: manejar_cliente_def b2 b3 b4)
  have k: "acks_recibidos (manejador (despachar ensayo ack17 0 ?e)) = {KNum 17}"
    using c0
    by (simp add: despachar_def ack17_def dict_get_def rama_ack_def manejador_def recibido_def
        registrar_def sumar_error_def Let_def)
  have f2: "acks_recibidos (limpiar_conexion 0 (manejador (despachar ensayo ack17 0 ?e))) = {KNum 17}"
    using k by (simp add: limpiar_conexion_def registrar_def)
  show ?thesis
    using m1 f1 j m2 f2 by simp
qed

section \<open>A message that is never acknowledged\<close>

text \<open>
  \<open>sin_ack k ls\<close>: none of the ACK messages that the receive thread will process
  carries the id with key \<open>k\<close>. \<open>separados d ts\<close>: each time of \<open>ts\<close> is at least
  \<open>d\<close> after the one before.
\<close>

definition sin_ack :: "clave \<Rightarrow> (nat \<times> json list) list \<Rightarrow> bool" where
  "sin_ack k ls = list_all (\<lambda>(extra, vs). list_all (\<lambda>v. clave_de v \<noteq> Some k) vs) ls"

fun separados :: "nat \<Rightarrow> nat list \<Rightarrow> bool" where
  "separados d [] = True"
| "separados d [a] = True"
| "separados d (a # b # r) = (a + d \<le> b \<and> separados d (b # r))"

text \<open>
  Between two states, \<open>ajeno k\<close>: what was done in between did not touch the key
  \<open>k\<close>, neither in the table of pending messages nor in the set of received ACKs,
  wrote and delivered nothing, and left the two settings of the wait alone.
\<close>

definition ajeno :: "clave \<Rightarrow> estado \<Rightarrow> estado \<Rightarrow> bool" where
  "ajeno k s s' \<longleftrightarrow>
     max_reintentos s' = max_reintentos s \<and> timeout_ack s' = timeout_ack s \<and>
     mensajes_pendientes s' k = mensajes_pendientes s k \<and>
     (k \<in> acks_recibidos s') = (k \<in> acks_recibidos s) \<and>
     hechos (traza s') = hechos (traza s) \<and> reloj s \<le> reloj s'"

lemma ajeno_refl [simp]: "ajeno k s s"
  by (simp add: ajeno_def)

lemma ajeno_trans: "ajeno k s s1 \<Longrightarrow> ajeno k s1 s2 \<Longrightarrow> ajeno k s s2"
  by (simp add: ajeno_def)

lemma ajeno_atender_ack:
  assumes "clave_de v \<noteq> Some k"
  shows "ajeno k s (atender_ack v s) \<and> llegadas (atender_ack v s) = llegadas s"
proof (cases "clave_de v")
  case None
  then show ?thesis
    by (simp add: atender_ack_def rama_ack_def dict_get_def manejador_def recibido_def
        registrar_def sumar_error_def ajeno_def)
next
  case (Some k')
  with assms have "k' \<noteq> k" by simp
  with Some show ?thesis
    by (simp add: atender_ack_def rama_ack_def dict_get_def manejador_def recibido_def
        registrar_def ajeno_def Let_def)
qed

lemma ajeno_fold_atender:
  "list_all (\<lambda>v. clave_de v \<noteq> Some k) vs \<Longrightarrow>
     ajeno k s (fold atender_ack vs s) \<and> llegadas (fold atender_ack vs s) = llegadas s"
proof (induction vs arbitrary: s)
  case Nil
  then show ?case by simp
next
  case (Cons v vs)
  then have a: "clave_de v \<noteq> Some k" and b: "list_all (\<lambda>v. clave_de v \<noteq> Some k) vs"
    by simp_all
  from ajeno_atender_ack [OF a, of s] Cons.IH [OF b, of "atender_ack v s"]
  show ?case
    by (auto intro: ajeno_trans)
qed

lemma ajeno_dormir_sondeo:
  assumes "sin_ack k (llegadas s)"
  shows "ajeno k s (dormir_sondeo s) \<and> sin_ack k (llegadas (dormir_sondeo s))"
proof (cases "llegadas s")
  case Nil
  then show ?thesis
    by (simp add: dormir_sondeo_def dormir_def registrar_def ajeno_def sin_ack_def)
next
  case (Cons p resto)
  obtain extra vs where p: "p = (extra, vs)" by (cases p)
  let ?s1 = "(dormir 100 s)\<lparr> reloj := reloj s + 100 + extra, llegadas := resto \<rparr>"
  have v: "list_all (\<lambda>v. clave_de v \<noteq> Some k) vs" and r: "sin_ack k resto"
    using assms Cons p by (simp_all add: sin_ack_def)
  have a: "ajeno k s ?s1" "llegadas ?s1 = resto"
    by (simp_all add: dormir_def registrar_def ajeno_def)
  have d: "dormir_sondeo s = fold atender_ack vs ?s1"
    using Cons p by (simp add: dormir_sondeo_def)
  from ajeno_fold_atender [OF v, of ?s1] a r show ?thesis
    by (auto simp: d intro: ajeno_trans)
qed

text \<open>Without its ACK, the polling loop runs until the whole timeout has passed.\<close>

lemma sondear_sin_ack:
  "k \<notin> acks_recibidos s \<Longrightarrow> sin_ack k (llegadas s) \<Longrightarrow>
     \<exists>s'. sondear k t0 s = (False, s') \<and> ajeno k s s' \<and> sin_ack k (llegadas s') \<and>
       int (timeout_ack s) \<le> int (reloj s') - int t0"
proof (induction k t0 s rule: sondear.induct)
  case (1 k t0 s)
  show ?case
  proof (cases "int (reloj s) - int t0 < int (timeout_ack s)")
    case False
    then have "sondear k t0 s = (False, s)"
      by (simp add: sondear.simps [of k t0 s])
    with False "1.prems" show ?thesis by simp
  next
    case True
    let ?s1 = "dormir_sondeo s"
    note d = ajeno_dormir_sondeo [OF "1.prems"(2)]
    then have n: "k \<notin> acks_recibidos ?s1"
      using "1.prems"(1) by (simp add: ajeno_def)
    from "1.IH" [OF True "1.prems"(1) n] d obtain s' where
      s': "sondear k t0 ?s1 = (False, s')" "ajeno k ?s1 s'" "sin_ack k (llegadas s')"
        "int (timeout_ack ?s1) \<le> int (reloj s') - int t0"
      by blast
    have "sondear k t0 s = sondear k t0 ?s1"
      using True "1.prems"(1) by (simp add: sondear.simps [of k t0 s])
    moreover have "ajeno k s s'"
      using d s'(2) by (blast intro: ajeno_trans)
    moreover have "timeout_ack ?s1 = timeout_ack s"
      by simp
    ultimately show ?thesis
      using s' by auto
  qed
qed

lemma separados_Cons:
  "\<forall>t \<in> set ts. a + d \<le> t \<Longrightarrow> separados d ts \<Longrightarrow> separados d (a # ts)"
  by (cases ts) simp_all

text \<open>A retransmission: one more attempt in the trace, at the time it was decided.\<close>

lemma reenviar_pendiente:
  assumes "mensajes_pendientes s (KNum (int mid)) = Some m" and "r < max_reintentos s"
  shows "hechos (traza (reenviar B mid r s)) = hechos (traza s) @ [(reloj s, Intento m)] \<and>
     inerte s (reenviar B mid r s)"
proof -
  let ?s0 = "registrar (Log WARNING) s"
  let ?s1 = "snd (enviar_mensaje_raw B m (socket_cliente s) ?s0)"
  note e = inerte_enviar_mensaje_raw [of ?s0 B m "socket_cliente s"]
  have b: "hechos (traza ?s0) = hechos (traza s)" "reloj ?s0 = reloj s"
    by (simp_all add: registrar_def)
  have "inerte ?s0 ?s1"
    using e by blast
  then have i: "inerte s ?s1"
    by (rule inerte_trans [OF inerte_registrar])
  have h: "hechos (traza ?s1) = hechos (traza s) @ [(reloj s, Intento m)]"
    using e b by simp
  have "reenviar B mid r s = ?s1"
    using assms by (simp add: reenviar_def)
  with i h show ?thesis
    by simp
qed

lemma esperar_bucle_fin:
  "\<not> r < max_reintentos s \<Longrightarrow> esperar_bucle B mid r s = (False, s)"
  by (simp add: esperar_bucle.simps [of B mid r s])

text \<open>
  The outer loop from its \<open>r\<close>-th turn on, for a message that stays pending and
  whose ACK never comes: one retransmission after each timeout but the last.
\<close>

lemma esperar_bucle_sin_ack:
  assumes "max_reintentos s - r = n"
    and "KNum (int mid) \<notin> acks_recibidos s" and "sin_ack (KNum (int mid)) (llegadas s)"
    and "mensajes_pendientes s (KNum (int mid)) = Some m"
  shows "\<exists>s' ts. esperar_bucle B mid r s = (False, s') \<and>
     hechos (traza s') = hechos (traza s) @ map (\<lambda>t. (t, Intento m)) ts \<and>
     length ts = n - 1 \<and>
     (\<forall>t \<in> set ts. reloj s + timeout_ack s \<le> t) \<and> separados (timeout_ack s) ts \<and>
     (\<forall>t \<in> set ts. t + timeout_ack s \<le> reloj s') \<and>
     (0 < n \<longrightarrow> reloj s + timeout_ack s \<le> reloj s') \<and>
     mensajes_pendientes s' (KNum (int mid)) = Some m \<and>
     max_reintentos s' = max_reintentos s"
  using assms
proof (induction n arbitrary: r s)
  case 0
  then have "\<not> r < max_reintentos s" by simp
  then have "esperar_bucle B mid r s = (False, s)"
    by (rule esperar_bucle_fin)
  with 0 show ?case by simp
next
  case (Suc n)
  let ?k = "KNum (int mid)"
  have r: "r < max_reintentos s" using Suc.prems(1) by simp
  from sondear_sin_ack [OF Suc.prems(2,3), of "reloj s"] obtain s1 where
    s1: "sondear ?k (reloj s) s = (False, s1)" "ajeno ?k s s1" "sin_ack ?k (llegadas s1)"
      "int (timeout_ack s) \<le> int (reloj s1) - int (reloj s)"
    by blast
  have t1: "reloj s + timeout_ack s \<le> reloj s1" using s1(4) by simp
  have p1: "mensajes_pendientes s1 ?k = Some m" "?k \<notin> acks_recibidos s1"
      "max_reintentos s1 = max_reintentos s" "timeout_ack s1 = timeout_ack s"
      "hechos (traza s1) = hechos (traza s)"
    using s1(2) Suc.prems by (simp_all add: ajeno_def)
  let ?s2 = "reenviar B mid (r + 1) s1"
  have e: "esperar_bucle B mid r s = esperar_bucle B mid (r + 1) ?s2"
    using r s1(1) by (simp add: esperar_bucle.simps [of B mid r s])
  show ?case
  proof (cases "r + 1 < max_reintentos s")
    case False
    then have "?s2 = s1"
      using p1 by (simp add: reenviar_def)
    moreover have "\<not> r + 1 < max_reintentos s1" using False p1 by simp
    then have "esperar_bucle B mid (r + 1) s1 = (False, s1)"
      by (rule esperar_bucle_fin)
    moreover have "n = 0" using False Suc.prems(1) by simp
    ultimately show ?thesis
      using e p1 t1 by simp
  next
    case True
    then have rr: "r + 1 < max_reintentos s1" using p1 by simp
    note q = reenviar_pendiente [OF p1(1) rr, of B]
    then have i: "inerte s1 ?s2" by simp
    have p2: "max_reintentos ?s2 - (r + 1) = n" "?k \<notin> acks_recibidos ?s2"
        "sin_ack ?k (llegadas ?s2)" "mensajes_pendientes ?s2 ?k = Some m"
        "timeout_ack ?s2 = timeout_ack s" "reloj s1 \<le> reloj ?s2"
        "max_reintentos ?s2 = max_reintentos s"
      using i p1 s1(3) Suc.prems(1) by (simp_all add: inerte_def)
    from Suc.IH [OF p2(1-4)] obtain s' ts where
      ih: "esperar_bucle B mid (r + 1) ?s2 = (False, s')"
        "hechos (traza s') = hechos (traza ?s2) @ map (\<lambda>t. (t, Intento m)) ts"
        "length ts = n - 1"
        "\<forall>t \<in> set ts. reloj ?s2 + timeout_ack ?s2 \<le> t" "separados (timeout_ack ?s2) ts"
        "\<forall>t \<in> set ts. t + timeout_ack ?s2 \<le> reloj s'"
        "0 < n \<longrightarrow> reloj ?s2 + timeout_ack ?s2 \<le> reloj s'"
        "mensajes_pendientes s' ?k = Some m" "max_reintentos s' = max_reintentos ?s2"
      by blast
    have n: "0 < n" using True Suc.prems(1) by simp
    let ?ts = "reloj s1 # ts"
    have a: "hechos (traza s') = hechos (traza s) @ map (\<lambda>t. (t, Intento m)) ?ts"
      using ih(2) q p1(5) by simp
    have b: "length ?ts = Suc n - 1" using ih(3) n by simp
    have c: "\<forall>t \<in> set ?ts. reloj s + timeout_ack s \<le> t"
      using ih(4) t1 p2(5,6) by auto
    have "\<forall>t \<in> set ts. reloj s1 + timeout_ack s \<le> t"
      using ih(4) p2(5,6) by auto
    then have d: "separados (timeout_ack s) ?ts"
      using ih(5) p2(5) by (simp add: separados_Cons)
    have f: "\<forall>t \<in> set ?ts. t + timeout_ack s \<le> reloj s'"
      using ih(6,7) n p2(5,6) by auto
    have g: "reloj s + timeout_ack s \<le> reloj s'"
      using ih(7) n p2(5,6) t1 by simp
    show ?thesis
      using e ih(1,8,9) a b c d f g p2(7) by (intro exI [of _ s'] exI [of _ ?ts]) simp
  qed
qed

end
